theory Spec2Isabelle
  imports Complex_Main "HOL-Library.AList" "HOL-Library.Char_ord" "HOL-Library.List_Lexorder"
begin

section \<open>The dependency-graph layout and interaction engine (\<open>src/src/graph_builder.py\<close>)\<close>

text \<open>
  The class \<open>GraphBuilder\<close> is embedded function by function. Conventions:
  \<^item> a Python \<open>float\<close> is the real number it denotes; the rounding of float arithmetic
    is a parameter of the node dimensions and of the placement (see the platform below);
    it is left out in the colour blend, in the line width and marker size and in the
    revision number, which flow into the figure and into no comparison;
  \<^item> Python \<open>str\<close> is \<open>string\<close>, a \<open>char\<close> being a code point below 256: \<open>len\<close> is
    \<open>length\<close> and the order of \<open>char\<close> is the order of code points; texts with code
    points from 256 on are outside the model;
  \<^item> an insertion-ordered \<open>dict\<close> is an association list updated with \<open>AList.update\<close>
    (an existing key keeps its place, a new key goes to the end);
  \<^item> a raised exception is the \<open>Inl\<close> branch of a sum.
\<close>

datatype py_error = KeyError | ValueError | IndexError

subsection \<open>Label wrapper (\<open>_wrap_label_intelligently\<close>)\<close>

text \<open>\<open>str.isspace\<close> on the code points below 256: tab, newline, vertical tab, form
  feed, carriage return, the four separators 0x1C..0x1F, the blank, the next-line control
  0x85 and the no-break space 0xA0.\<close>

definition is_space :: "char \<Rightarrow> bool" where
  "is_space c = (c \<in> set [CHR 0x09, CHR 0x0A, CHR 0x0B, CHR 0x0C, CHR 0x0D,
                            CHR 0x1C, CHR 0x1D, CHR 0x1E, CHR 0x1F, CHR '' '',
                            CHR 0x85, CHR 0xA0])"

text \<open>\<open>text.split()\<close>: maximal runs of non-whitespace, in order; \<open>w\<close> is the word being read.\<close>

fun split_ws :: "string \<Rightarrow> string \<Rightarrow> string list" where
  "split_ws w [] = (if w = [] then [] else [w])"
| "split_ws w (c # cs) =
     (if is_space c then (if w = [] then split_ws [] cs else w # split_ws [] cs)
      else split_ws (w @ [c]) cs)"

definition py_split :: "string \<Rightarrow> string list" where
  "py_split text = split_ws [] text"

text \<open>\<open>sep.join(xs)\<close>.\<close>

fun py_join :: "string \<Rightarrow> string list \<Rightarrow> string" where
  "py_join sep [] = []"
| "py_join sep [x] = x"
| "py_join sep (x # y # ys) = x @ sep @ py_join sep (y # ys)"

text \<open>The slices \<open>xs[:k]\<close> and \<open>xs[k:]\<close>; a negative \<open>k\<close> counts from the end.\<close>

definition slice_to :: "'a list \<Rightarrow> int \<Rightarrow> 'a list" where
  "slice_to xs k = (if k < 0 then take (nat (int (length xs) + k)) xs else take (nat k) xs)"

definition slice_from :: "'a list \<Rightarrow> int \<Rightarrow> 'a list" where
  "slice_from xs k = (if k < 0 then drop (nat (int (length xs) + k)) xs else drop (nat k) xs)"

text \<open>\<open>word.split("-", 1)\<close> for a word that contains a hyphen: the text before the first
  hyphen and the text after it.\<close>

definition split_hyphen_once :: "string \<Rightarrow> string \<times> string" where
  "split_hyphen_once word =
     (takeWhile (\<lambda>c. c \<noteq> CHR ''-'') word, drop 1 (dropWhile (\<lambda>c. c \<noteq> CHR ''-'') word))"

text \<open>The loop \<open>for word in words\<close>; the state is \<open>(lines, current_line)\<close>.\<close>

fun wrap_loop :: "nat \<Rightarrow> string list \<Rightarrow> string list \<Rightarrow> string \<Rightarrow> string list \<times> string" where
  "wrap_loop target_chars [] lines current_line = (lines, current_line)"
| "wrap_loop target_chars (word # words) lines current_line =
     (let test_line = current_line @ (if current_line \<noteq> [] then '' '' else []) @ word in
      if length test_line \<le> target_chars then wrap_loop target_chars words lines test_line
      else if current_line \<noteq> [] then wrap_loop target_chars words (lines @ [current_line]) word
      else if length word > target_chars then
        (if CHR ''-'' \<in> set word then
           (let parts = split_hyphen_once word in
            if int (length (fst parts)) \<le> int target_chars - 1
            then wrap_loop target_chars words (lines @ [fst parts @ ''-'']) (snd parts)
            else wrap_loop target_chars words
                   (lines @ [slice_to word (int target_chars - 1) @ ''-''])
                   (slice_from word (int target_chars - 1)))
         else wrap_loop target_chars words
                (lines @ [slice_to word (int target_chars - 1) @ ''-''])
                (slice_from word (int target_chars - 1)))
      else wrap_loop target_chars words lines word)"

definition wrap_label_intelligently :: "string \<Rightarrow> string \<times> nat" where
  "wrap_label_intelligently text =
     (if text = [] then ([], 1)
      else let words = py_split text in
        if words = [] then ([], 1)
        else
          let total_chars = length text;
              target_chars = (if total_chars \<le> 15 then total_chars
                              else if total_chars \<le> 30 then 16 else 18);
              (lines, current_line) = wrap_loop target_chars words [] [];
              lines1 = (if current_line \<noteq> [] then lines @ [current_line] else lines);
              lines2 = (if lines1 = [] then [[]] else lines1)
          in (py_join ''<br>'' lines2, length lines2))"

subsection \<open>Errors, numbers and their text\<close>

text \<open>Sequencing of steps that may raise: the first exception ends the computation.\<close>

definition py_bind :: "py_error + 'a \<Rightarrow> ('a \<Rightarrow> py_error + 'b) \<Rightarrow> py_error + 'b" where
  "py_bind m f = (case m of Inl e \<Rightarrow> Inl e | Inr x \<Rightarrow> f x)"

text \<open>\<open>d[k]\<close> on a dictionary: \<open>KeyError\<close> when the key is absent.\<close>

definition py_lookup :: "('k \<times> 'v) list \<Rightarrow> 'k \<Rightarrow> py_error + 'v" where
  "py_lookup d k = (case map_of d k of None \<Rightarrow> Inl KeyError | Some v \<Rightarrow> Inr v)"

text \<open>\<open>int(x)\<close> on a float truncates toward zero.\<close>

definition py_int_of_float :: "real \<Rightarrow> int" where
  "py_int_of_float x = (if 0 \<le> x then \<lfloor>x\<rfloor> else \<lceil>x\<rceil>)"

text \<open>The decimal text of an integer, as an f-string prints it.\<close>

function string_of_nat :: "nat \<Rightarrow> string" where
  "string_of_nat n =
     (if n < 10 then [''0123456789'' ! n]
      else string_of_nat (n div 10) @ [''0123456789'' ! (n mod 10)])"
  by pat_completeness auto
termination
  by (relation "measure id") auto

declare string_of_nat.simps [simp del]

definition string_of_int :: "int \<Rightarrow> string" where
  "string_of_int i = (if i < 0 then ''-'' @ string_of_nat (nat (- i)) else string_of_nat (nat i))"

subsection \<open>Edge colours (\<open>_adjust_brightness\<close>, \<open>_get_edge_color\<close>)\<close>

definition hex_digit :: "char \<Rightarrow> int option" where
  "hex_digit c =
     (let n = (of_char c :: nat) in
      if 48 \<le> n \<and> n \<le> 57 then Some (int n - 48)
      else if 65 \<le> n \<and> n \<le> 70 then Some (int n - 55)
      else if 97 \<le> n \<and> n \<le> 102 then Some (int n - 87)
      else None)"

definition py_strip :: "string \<Rightarrow> string" where
  "py_strip s = rev (dropWhile is_space (rev (dropWhile is_space s)))"

text \<open>\<open>int(s, 16)\<close> for the slices \<open>hex_color[i : i + 2]\<close>, which have at most two
  characters: surrounding whitespace is stripped, a sign may precede one digit, and
  anything else (the empty text included) is a \<open>ValueError\<close>.\<close>

definition py_int16 :: "string \<Rightarrow> py_error + int" where
  "py_int16 s =
     (case py_strip s of
        [d] \<Rightarrow> (case hex_digit d of Some x \<Rightarrow> Inr x | None \<Rightarrow> Inl ValueError)
      | [a, b] \<Rightarrow>
          (case hex_digit b of
             None \<Rightarrow> Inl ValueError
           | Some y \<Rightarrow>
               if a = CHR ''+'' then Inr y
               else if a = CHR ''-'' then Inr (- y)
               else (case hex_digit a of Some x \<Rightarrow> Inr (16 * x + y) | None \<Rightarrow> Inl ValueError))
      | _ \<Rightarrow> Inl ValueError)"

text \<open>The blend of one channel, in exact arithmetic. On the channels of the three base
  colours and the shifts of \<open>BRIGHTNESS_MAP\<close> no blended value is within rounding distance
  of an integer, so that \<open>int()\<close> of the double is the same integer.\<close>

definition blend :: "real \<Rightarrow> int \<Rightarrow> int" where
  "blend shift c =
     (if shift > 0 then py_int_of_float (real_of_int c + (255 - real_of_int c) * shift)
      else py_int_of_float (real_of_int c * (1 + shift)))"

definition adjust_brightness :: "string \<Rightarrow> real \<Rightarrow> py_error + string" where
  "adjust_brightness hex_color shift =
     (let h = dropWhile (\<lambda>c. c = CHR ''#'') hex_color in
      py_bind (py_int16 (take 2 h)) (\<lambda>r.
      py_bind (py_int16 (take 2 (drop 2 h))) (\<lambda>g.
      py_bind (py_int16 (take 2 (drop 4 h))) (\<lambda>b.
        Inr (''rgb('' @ string_of_int (blend shift r) @ '','' @ string_of_int (blend shift g)
               @ '','' @ string_of_int (blend shift b) @ '')'')))))"

definition BRIGHTNESS_MAP :: "(int \<times> real) list" where
  "BRIGHTNESS_MAP = [(2, 3 / 10), (3, 0), (4, - (3 / 10))]"

definition get_edge_color :: "int \<Rightarrow> int \<Rightarrow> int \<Rightarrow> py_error + string" where
  "get_edge_color xu xv tier =
     (let tier_pair = {xu, xv};
          base_color =
            (if tier_pair = {1, 2} then ''#4A90E2''
             else if tier_pair \<in> set [{1, 3}, {2, 3}] then ''#72CBE2''
             else if tier_pair \<inter> {1, 2, 3} \<noteq> {} \<and> 4 \<in> tier_pair then ''#A680B8''
             else ''#4A90E2'');
          brightness_shift = (case map_of BRIGHTNESS_MAP tier of Some v \<Rightarrow> v | None \<Rightarrow> 0)
      in adjust_brightness base_color brightness_shift)"

subsection \<open>The tables and the builder\<close>

text \<open>A row of \<open>nodes_df\<close> (with the column \<open>X_GROUP\<close> that \<open>layout.py\<close> adds) and a row
  of \<open>edges_df\<close>.\<close>

record domain_row =
  DOMAIN_ID :: string
  DOMAIN_NAME :: string
  X_GROUP :: int
  CURRENT_MATURITY :: real
  CATEGORY :: string
  COLOR_HEX :: string
  BORDER_HEX :: string

record dependency_row =
  SOURCE_DOMAIN_ID :: string
  TARGET_DOMAIN_ID :: string
  WEIGHT :: real
  TIER :: int
  DESCRIPTION :: string

text \<open>The class constants that the modelled functions read.\<close>

definition TIER_BAND_COLORS :: "(real \<times> string) list" where
  "TIER_BAND_COLORS = [(1, ''#fde2e2''), (3 / 2, ''#ffeeba''), (2, ''#fff9c4'')]"

definition X_GROUP_LABELS :: "(int \<times> string) list" where
  "X_GROUP_LABELS =
     [(1, ''Foundational Domains''), (2, ''Tier 1 Dependency Domains''),
      (3, ''Tier 2 Dependency Domains''), (4, ''Resulting Domains'')]"

definition TIER_LABEL_MAP :: "(int \<times> string) list" where
  "TIER_LABEL_MAP =
     [(1, ''Optimizer''), (2, ''Optimizer''), (3, ''Partial Blocker''), (4, ''Blocker'')]"

text \<open>\<open>Series.unique()\<close>: the distinct values in the order of their first occurrence.\<close>

definition py_unique :: "'a list \<Rightarrow> 'a list" where
  "py_unique xs = rev (remdups (rev xs))"

text \<open>\<open>s.split("<br>")\<close>; \<open>cur\<close> is the piece being read.\<close>

fun split_br :: "string \<Rightarrow> string \<Rightarrow> string list" where
  "split_br cur [] = [cur]"
| "split_br cur (c # cs) =
     (if take 4 (c # cs) = ''<br>'' then cur # split_br [] (drop 3 cs)
      else split_br (cur @ [c]) cs)"

subsection \<open>The platform: floats, numpy and pandas\<close>

text \<open>
  A Python float is an IEEE-754 double. It is modelled by the real number it denotes, and
  every float literal, sum, difference, product and quotient by the exact result passed
  through the rounding \<open>fl\<close> of the platform. The rounding stays a parameter, so that what
  is proved for every platform holds for doubles; comparisons of floats are exact.
  Three library functions are parameters as well: \<open>np.linspace\<close> and \<open>np.mean\<close>, whose
  order of operations is numpy's own, and \<open>sort_values("DOMAIN_NAME")\<close> of pandas, a
  quicksort that need not keep rows of equal name in table order.
\<close>

record platform =
  fl :: "real \<Rightarrow> real"
  np_linspace :: "real \<Rightarrow> real \<Rightarrow> nat \<Rightarrow> real list"
  np_mean :: "real list \<Rightarrow> real"
  sort_values :: "domain_row list \<Rightarrow> domain_row list"

definition f_lit :: "platform \<Rightarrow> real \<Rightarrow> real" where
  "f_lit pf x = fl pf x"

definition f_add :: "platform \<Rightarrow> real \<Rightarrow> real \<Rightarrow> real" where
  "f_add pf a b = fl pf (a + b)"

definition f_sub :: "platform \<Rightarrow> real \<Rightarrow> real \<Rightarrow> real" where
  "f_sub pf a b = fl pf (a - b)"

definition f_mul :: "platform \<Rightarrow> real \<Rightarrow> real \<Rightarrow> real" where
  "f_mul pf a b = fl pf (a * b)"

definition f_div :: "platform \<Rightarrow> real \<Rightarrow> real \<Rightarrow> real" where
  "f_div pf a b = fl pf (a / b)"

text \<open>The platform without rounding, on which the examples are evaluated: \<open>np.linspace\<close>
  and \<open>np.mean\<close> by their meaning on real numbers, and a stable sort by name.\<close>

definition linspace :: "real \<Rightarrow> real \<Rightarrow> nat \<Rightarrow> real list" where
  "linspace start stop num =
     (if num = 1 then [start]
      else map (\<lambda>i. start + real i * ((stop - start) / real (num - 1))) [0..<num])"

definition mean :: "real list \<Rightarrow> real" where
  "mean xs = sum_list xs / real (length xs)"

definition exact_platform :: platform where
  "exact_platform =
     \<lparr>fl = (\<lambda>x. x), np_linspace = linspace, np_mean = mean,
      sort_values = sort_key DOMAIN_NAME\<rparr>"

subsection \<open>Node dimensions (\<open>_calculate_optimal_column_widths\<close>,
  \<open>_precalculate_node_dimensions\<close>)\<close>

definition longest_name_of :: "domain_row list \<Rightarrow> string" where
  "longest_name_of column_nodes =
     foldl (\<lambda>longest_name row.
              if length (DOMAIN_NAME row) > length longest_name then DOMAIN_NAME row
              else longest_name) [] column_nodes"

definition column_width :: "platform \<Rightarrow> domain_row list \<Rightarrow> real" where
  "column_width pf column_nodes =
     (let longest_name = longest_name_of column_nodes in
      if longest_name \<noteq> [] then
        (let (wrapped_text, line_count) = wrap_label_intelligently longest_name;
             lines = split_br [] wrapped_text;
             max_line_length = (if lines \<noteq> [] then foldr max (map length lines) 0 else 0);
             char_width = f_lit pf (7 / 100);
             padding = f_lit pf (25 / 100);
             optimal_width =
               max (f_lit pf (8 / 10))
                 (f_add pf (f_mul pf (real max_line_length) char_width) padding)
         in min optimal_width (f_lit pf (16 / 10)))
      else f_lit pf (9 / 10))"

definition calculate_optimal_column_widths ::
  "platform \<Rightarrow> domain_row list \<Rightarrow> (int \<times> real) list" where
  "calculate_optimal_column_widths pf nodes_df =
     foldl (\<lambda>column_widths x_group.
              AList.update x_group
                (column_width pf (filter (\<lambda>row. X_GROUP row = x_group) nodes_df)) column_widths)
       [] (py_unique (map X_GROUP nodes_df))"

type_synonym dimensions = "(string \<times> (real \<times> real \<times> string)) list"

fun dimension_rows ::
  "platform \<Rightarrow> (int \<times> real) list \<Rightarrow> domain_row list \<Rightarrow> dimensions
     \<Rightarrow> py_error + dimensions" where
  "dimension_rows pf column_widths [] dimensions = Inr dimensions"
| "dimension_rows pf column_widths (row # rows) dimensions =
     py_bind (py_lookup column_widths (X_GROUP row)) (\<lambda>node_width.
       let (wrapped_label, line_count) = wrap_label_intelligently (DOMAIN_NAME row);
           base_height = f_lit pf (18 / 100);
           line_height = f_lit pf (12 / 100);
           total_height = f_add pf base_height (f_mul pf (real line_count) line_height)
       in dimension_rows pf column_widths rows
            (AList.update (DOMAIN_ID row) (node_width, total_height, wrapped_label) dimensions))"

definition precalculate_node_dimensions ::
  "platform \<Rightarrow> domain_row list \<Rightarrow> py_error + dimensions" where
  "precalculate_node_dimensions pf nodes_df =
     dimension_rows pf (calculate_optimal_column_widths pf nodes_df) nodes_df []"

text \<open>The object after \<open>__init__\<close>: the two tables and the dimensions computed from them,
  together with the platform it runs on.\<close>

record graph_builder =
  nodes_df :: "domain_row list"
  edges_df :: "dependency_row list"
  node_dimensions :: dimensions
  the_platform :: platform

definition init ::
  "platform \<Rightarrow> domain_row list \<Rightarrow> dependency_row list \<Rightarrow> py_error + graph_builder" where
  "init pf nodes edges =
     py_bind (precalculate_node_dimensions pf nodes) (\<lambda>dims.
       Inr \<lparr>nodes_df = nodes, edges_df = edges, node_dimensions = dims, the_platform = pf\<rparr>)"

text \<open>\<open>LayoutConfig\<close>: the float constants that the placement reads.\<close>

definition x_spacing :: "graph_builder \<Rightarrow> real" where
  "x_spacing self = f_lit (the_platform self) (34 / 10)"

definition local_y_spacing :: "graph_builder \<Rightarrow> real" where
  "local_y_spacing self = f_lit (the_platform self) (7 / 10)"

definition tier_vertical_gap :: "graph_builder \<Rightarrow> real" where
  "tier_vertical_gap self = f_lit (the_platform self) (6 / 10)"

subsection \<open>Position assignment (\<open>_assign_stacked_positions\<close>)\<close>

definition calculate_tier_offsets :: "graph_builder \<Rightarrow> (real \<times> real) list" where
  "calculate_tier_offsets self =
     (let sorted_tiers = sort (map fst TIER_BAND_COLORS) in
      map (\<lambda>(idx, tier).
             (tier, f_mul (the_platform self)
                      (f_mul (the_platform self) (real idx) (tier_vertical_gap self)) 6))
        (zip [0..<length sorted_tiers] sorted_tiers))"

text \<open>\<open>np.isclose(a, b)\<close> with its default tolerances:
  \<open>abs(a - b) <= atol + rtol * abs(b)\<close>.\<close>

definition isclose :: "platform \<Rightarrow> real \<Rightarrow> real \<Rightarrow> bool" where
  "isclose pf a b =
     (\<bar>f_sub pf a b\<bar> \<le> f_add pf (f_lit pf (1 / 10 ^ 8)) (f_mul pf (f_lit pf (1 / 10 ^ 5)) \<bar>b\<bar>))"

definition calculate_y_grid :: "graph_builder \<Rightarrow> nat \<Rightarrow> real \<Rightarrow> real list" where
  "calculate_y_grid self count y_spacing =
     (if count = 1 then [0]
      else let y_grid = np_linspace (the_platform self) 0
                          (f_mul (the_platform self) (real count - 1) y_spacing) count;
               m = np_mean (the_platform self) y_grid
           in map (\<lambda>y. f_sub (the_platform self) y m) y_grid)"

type_synonym used_coords = "((int \<times> real) \<times> real) list"

text \<open>\<open>_has_intelligent_collisions\<close>: the inner loop over \<open>used_coords.items()\<close> and the
  outer loop over the new batch; \<open>return True\<close> at the first overlap.\<close>

definition min_gap :: "graph_builder \<Rightarrow> real" where
  "min_gap self = f_lit (the_platform self) (15 / 100)"

fun collides_with_used ::
  "graph_builder \<Rightarrow> real \<Rightarrow> real \<Rightarrow> int \<Rightarrow> used_coords \<Rightarrow> bool" where
  "collides_with_used self node_top node_bottom current_x_group [] = False"
| "collides_with_used self node_top node_bottom current_x_group
     (((x_group, existing_y), existing_height) # used) =
     (if x_group = current_x_group then
        (let existing_top =
               f_add (the_platform self) existing_y (f_div (the_platform self) existing_height 2);
             existing_bottom =
               f_sub (the_platform self) existing_y (f_div (the_platform self) existing_height 2)
         in if \<not> (node_bottom > f_add (the_platform self) existing_top (min_gap self)
                  \<or> node_top < f_sub (the_platform self) existing_bottom (min_gap self))
            then True
            else collides_with_used self node_top node_bottom current_x_group used)
      else collides_with_used self node_top node_bottom current_x_group used)"

fun has_intelligent_collisions ::
  "graph_builder \<Rightarrow> real list \<Rightarrow> real list \<Rightarrow> used_coords \<Rightarrow> int \<Rightarrow> bool" where
  "has_intelligent_collisions self (y # y_positions) (height # heights) used_coords
     current_x_group =
     (let node_top = f_add (the_platform self) y (f_div (the_platform self) height 2);
          node_bottom = f_sub (the_platform self) y (f_div (the_platform self) height 2)
      in if collides_with_used self node_top node_bottom current_x_group used_coords then True
         else has_intelligent_collisions self y_positions heights used_coords current_x_group)"
| "has_intelligent_collisions self _ _ used_coords current_x_group = False"

text \<open>The loop \<open>for _ in range(15)\<close>: the first argument counts the attempts left; the
  state is \<open>(y_spacing, y_grid)\<close>, where \<open>y_grid\<close> is bound by the first attempt.\<close>

fun find_y_grid ::
  "graph_builder \<Rightarrow> nat \<Rightarrow> real \<Rightarrow> real list \<Rightarrow> nat \<Rightarrow> real \<Rightarrow> real list \<Rightarrow> used_coords
     \<Rightarrow> int \<Rightarrow> real \<times> real list" where
  "find_y_grid self 0 y_spacing y_grid count tier_offset group_heights used_coords x_group =
     (y_spacing, y_grid)"
| "find_y_grid self (Suc n) y_spacing y_grid count tier_offset group_heights used_coords
     x_group =
     (let y_grid1 = calculate_y_grid self count y_spacing;
          y_positions = map (\<lambda>offset. f_add (the_platform self) tier_offset offset) y_grid1
      in if \<not> has_intelligent_collisions self y_positions group_heights used_coords x_group
         then (y_spacing, y_grid1)
         else find_y_grid self n
                (f_mul (the_platform self) y_spacing (f_lit (the_platform self) (108 / 100)))
                y_grid1 count tier_offset group_heights used_coords x_group)"

record placement =
  p_positions :: "(string \<times> (real \<times> real)) list"
  p_used_y_coords :: used_coords

text \<open>The loop that commits a batch: \<open>zip(y_grid, group_heights, sorted_group.iterrows())\<close>.\<close>

fun commit_batch ::
  "graph_builder \<Rightarrow> (real \<times> real \<times> domain_row) list \<Rightarrow> int \<Rightarrow> real \<Rightarrow> placement
     \<Rightarrow> placement" where
  "commit_batch self [] x_group tier_offset st = st"
| "commit_batch self ((offset, height, row) # rest) x_group tier_offset st =
     (let x = f_mul (the_platform self) (real_of_int x_group) (x_spacing self);
          y = f_add (the_platform self) tier_offset offset
      in commit_batch self rest x_group tier_offset
           \<lparr>p_positions = AList.update (DOMAIN_ID row) (x, y) (p_positions st),
            p_used_y_coords = AList.update (x_group, y) height (p_used_y_coords st)\<rparr>)"

fun group_heights_of :: "dimensions \<Rightarrow> domain_row list \<Rightarrow> py_error + real list" where
  "group_heights_of dims [] = Inr []"
| "group_heights_of dims (row # rows) =
     py_bind (py_lookup dims (DOMAIN_ID row)) (\<lambda>(w, h, l).
     py_bind (group_heights_of dims rows) (\<lambda>hs. Inr (h # hs)))"

text \<open>One \<open>(tier, x_group)\<close> bucket.\<close>

definition place_group ::
  "graph_builder \<Rightarrow> real \<Rightarrow> int \<Rightarrow> domain_row list \<Rightarrow> placement \<Rightarrow> py_error + placement" where
  "place_group self tier_offset x_group grp st =
     (let sorted_group = sort_values (the_platform self) grp;
          count = length sorted_group;
          y_spacing = local_y_spacing self
      in py_bind (group_heights_of (node_dimensions self) sorted_group) (\<lambda>group_heights.
           let (y_spacing1, y_grid) =
                 find_y_grid self 15 y_spacing [] count tier_offset group_heights
                   (p_used_y_coords st) x_group
           in Inr (commit_batch self (zip y_grid (zip group_heights sorted_group))
                     x_group tier_offset st)))"

text \<open>The loop over \<open>tier_df.groupby("X_GROUP")\<close>: the groups come in ascending key order.\<close>

fun place_groups ::
  "graph_builder \<Rightarrow> real \<Rightarrow> domain_row list \<Rightarrow> int list \<Rightarrow> placement \<Rightarrow> py_error + placement" where
  "place_groups self tier_offset tier_df [] st = Inr st"
| "place_groups self tier_offset tier_df (x_group # x_groups) st =
     py_bind (place_group self tier_offset x_group
                (filter (\<lambda>row. X_GROUP row = x_group) tier_df) st)
       (place_groups self tier_offset tier_df x_groups)"

text \<open>The loop \<open>for tier in sorted(self.TIER_BAND_COLORS)\<close>.\<close>

fun place_tiers ::
  "graph_builder \<Rightarrow> (real \<times> real) list \<Rightarrow> real list \<Rightarrow> placement \<Rightarrow> py_error + placement" where
  "place_tiers self tier_offsets [] st = Inr st"
| "place_tiers self tier_offsets (tier # tiers) st =
     (let tier_df = filter (\<lambda>row. isclose (the_platform self) (CURRENT_MATURITY row) tier)
                      (nodes_df self) in
      py_bind (py_lookup tier_offsets tier) (\<lambda>tier_offset.
      py_bind (place_groups self tier_offset tier_df
                 (sort (remdups (map X_GROUP tier_df))) st)
        (place_tiers self tier_offsets tiers)))"

definition assign_stacked_positions ::
  "graph_builder \<Rightarrow> py_error + (string \<times> (real \<times> real)) list" where
  "assign_stacked_positions self =
     py_bind (place_tiers self (calculate_tier_offsets self) (sort (map fst TIER_BAND_COLORS))
                \<lparr>p_positions = [], p_used_y_coords = []\<rparr>)
       (\<lambda>st. Inr (p_positions st))"

subsection \<open>The graph (\<open>networkx.DiGraph\<close>) and \<open>_build_networkx_graph\<close>\<close>

text \<open>The attributes of a node. \<open>glow\<close> and \<open>opacity\<close> are absent until
  \<open>_apply_node_styles\<close> sets them.\<close>

record node_attrs =
  label :: string
  wrapped_label :: string
  category :: string
  color :: string
  border :: string
  original_border :: string
  pos :: "real \<times> real"
  width :: real
  height :: real
  glow :: "bool option"
  opacity :: "real option"

record edge_data =
  weight :: real
  tier :: int
  description :: string

type_synonym edge = "string \<times> string \<times> edge_data"

text \<open>
  The graph keeps its nodes in insertion order, each with its attribute dictionary
  (\<open>None\<close> for a node that \<open>add_edge\<close> created, which has no attribute at all), and its
  edges keyed by \<open>(source, target)\<close> in the order of their first insertion: adding an
  edge again replaces its data and keeps its place, as the adjacency dictionaries do.
\<close>

record digraph =
  g_nodes :: "(string \<times> node_attrs option) list"
  g_edges :: "((string \<times> string) \<times> edge_data) list"

definition node_ids :: "digraph \<Rightarrow> string list" where
  "node_ids G = map fst (g_nodes G)"

definition add_node :: "string \<Rightarrow> node_attrs \<Rightarrow> digraph \<Rightarrow> digraph" where
  "add_node n a G = G\<lparr>g_nodes := AList.update n (Some a) (g_nodes G)\<rparr>"

definition touch_node :: "string \<Rightarrow> digraph \<Rightarrow> digraph" where
  "touch_node n G = (if n \<in> set (node_ids G) then G else G\<lparr>g_nodes := g_nodes G @ [(n, None)]\<rparr>)"

definition add_edge :: "string \<Rightarrow> string \<Rightarrow> edge_data \<Rightarrow> digraph \<Rightarrow> digraph" where
  "add_edge u v d G =
     (let G1 = touch_node v (touch_node u G)
      in G1\<lparr>g_edges := AList.update (u, v) d (g_edges G1)\<rparr>)"

text \<open>\<open>G.out_edges(n)\<close> and \<open>G.in_edges(n)\<close> for a node \<open>n\<close> of the graph, each edge with
  its data \<open>G[u][v]\<close>; \<open>G.edges(data=True)\<close> lists the out-edges node by node.\<close>

definition out_edges :: "digraph \<Rightarrow> string \<Rightarrow> edge list" where
  "out_edges G n = map (\<lambda>((u, v), d). (u, v, d)) (filter (\<lambda>((u, v), d). u = n) (g_edges G))"

definition in_edges :: "digraph \<Rightarrow> string \<Rightarrow> edge list" where
  "in_edges G n = map (\<lambda>((u, v), d). (u, v, d)) (filter (\<lambda>((u, v), d). v = n) (g_edges G))"

definition all_edges :: "digraph \<Rightarrow> edge list" where
  "all_edges G = concat (map (out_edges G) (node_ids G))"

fun add_node_rows ::
  "graph_builder \<Rightarrow> (string \<times> (real \<times> real)) list \<Rightarrow> domain_row list \<Rightarrow> digraph
     \<Rightarrow> py_error + digraph" where
  "add_node_rows self positions [] G = Inr G"
| "add_node_rows self positions (row # rows) G =
     py_bind (py_lookup (node_dimensions self) (DOMAIN_ID row)) (\<lambda>(w, h, wrapped).
     py_bind (py_lookup positions (DOMAIN_ID row)) (\<lambda>p.
       add_node_rows self positions rows
         (add_node (DOMAIN_ID row)
            \<lparr>label = DOMAIN_NAME row, wrapped_label = wrapped, category = CATEGORY row,
             color = COLOR_HEX row, border = BORDER_HEX row, original_border = BORDER_HEX row,
             pos = p, width = w, height = h, glow = None, opacity = None\<rparr> G)))"

fun add_edge_rows :: "dependency_row list \<Rightarrow> digraph \<Rightarrow> digraph" where
  "add_edge_rows [] G = G"
| "add_edge_rows (row # rows) G =
     add_edge_rows rows
       (add_edge (SOURCE_DOMAIN_ID row) (TARGET_DOMAIN_ID row)
          \<lparr>weight = WEIGHT row, tier = TIER row, description = DESCRIPTION row\<rparr> G)"

definition build_networkx_graph ::
  "graph_builder \<Rightarrow> (string \<times> (real \<times> real)) list \<Rightarrow> py_error + digraph" where
  "build_networkx_graph self positions =
     py_bind (add_node_rows self positions (nodes_df self) \<lparr>g_nodes = [], g_edges = []\<rparr>)
       (\<lambda>G. Inr (add_edge_rows (edges_df self) G))"

text \<open>\<open>nx.get_node_attributes(G, "pos")\<close>: the nodes that have the attribute.\<close>

definition get_pos :: "digraph \<Rightarrow> (string \<times> (real \<times> real)) list" where
  "get_pos G = concat (map (\<lambda>(n, a). case a of None \<Rightarrow> [] | Some attrs \<Rightarrow> [(n, pos attrs)]) (g_nodes G))"

subsection \<open>Interaction state (\<open>_determine_interaction_state\<close>, \<open>_apply_node_styles\<close>,
  \<open>_determine_visible_elements\<close>, \<open>_get_directional_edges\<close>)\<close>

text \<open>Python's truth value of an \<open>Optional[str]\<close>: \<open>None\<close> and the empty text are false.\<close>

definition truthy :: "string option \<Rightarrow> bool" where
  "truthy s = (s \<noteq> None \<and> s \<noteq> Some [])"

definition reset_hover :: "string option \<Rightarrow> string option" where
  "reset_hover hovered = (if hovered = Some ''RESET'' then None else hovered)"

definition determine_interaction_state ::
  "digraph \<Rightarrow> string option \<Rightarrow> string option \<Rightarrow> string
     \<Rightarrow> string set \<times> string set \<times> string set" where
  "determine_interaction_state G selected hovered0 mode =
     (let hovered = reset_hover hovered0 in
      if mode = ''filter'' \<and> (selected = None \<or> selected = Some ''All'') then ({}, {}, {})
      else
        let (highlight1, secondary_nodes) =
              (if truthy selected \<and> the selected \<in> set (node_ids G)
               then ({the selected},
                     set (map (\<lambda>(u, v, d). v) (out_edges G (the selected)))
                       \<union> set (map (\<lambda>(u, v, d). u) (in_edges G (the selected))))
               else ({}, {}));
            highlight_nodes =
              (if truthy hovered \<and> hovered \<noteq> selected \<and> the hovered \<in> set (node_ids G)
               then insert (the hovered) highlight1 else highlight1);
            dim_nodes =
              (if mode = ''filter'' then set (node_ids G) - highlight_nodes - secondary_nodes
               else if mode = ''interactive'' \<and> truthy selected
               then set (node_ids G) - highlight_nodes - secondary_nodes
               else {})
        in (highlight_nodes, secondary_nodes, dim_nodes))"

text \<open>The \<open>NodeStyle\<close> that the loop of \<open>_apply_node_styles\<close> computes for one node.\<close>

record node_style =
  st_glow :: bool
  st_opacity :: real
  st_border :: string

definition style_of ::
  "string \<Rightarrow> string \<Rightarrow> string option \<Rightarrow> string option \<Rightarrow> string set \<Rightarrow> node_style" where
  "style_of node orig_border selected hovered dim_nodes =
     (let s0 = \<lparr>st_glow = False, st_opacity = 1, st_border = orig_border\<rparr>;
          s1 = (if Some node = selected then s0\<lparr>st_border := ''#000000'', st_opacity := 1\<rparr> else s0);
          s2 = (if Some node = hovered
                then (if Some node \<noteq> selected
                      then s1\<lparr>st_glow := True, st_border := ''#FFD700''\<rparr>
                      else s1\<lparr>st_glow := True\<rparr>)
                else s1);
          s3 = (if dim_nodes \<noteq> {} \<and> node \<in> dim_nodes then s2\<lparr>st_opacity := 2 / 10\<rparr> else s2)
      in s3)"

fun style_nodes ::
  "(string \<times> node_attrs option) list \<Rightarrow> string option \<Rightarrow> string option \<Rightarrow> string set
     \<Rightarrow> py_error + (string \<times> node_attrs option) list" where
  "style_nodes [] selected hovered dim_nodes = Inr []"
| "style_nodes ((node, None) # rest) selected hovered dim_nodes = Inl KeyError"
| "style_nodes ((node, Some a) # rest) selected hovered dim_nodes =
     (let style = style_of node (original_border a) selected hovered dim_nodes in
      py_bind (style_nodes rest selected hovered dim_nodes) (\<lambda>rest1.
        Inr ((node, Some (a\<lparr>glow := Some (st_glow style), opacity := Some (st_opacity style),
                              border := st_border style\<rparr>)) # rest1)))"

definition apply_node_styles ::
  "digraph \<Rightarrow> string option \<Rightarrow> string option \<Rightarrow> string set \<Rightarrow> string set
     \<Rightarrow> py_error + digraph" where
  "apply_node_styles G selected hovered highlight_nodes dim_nodes =
     py_bind (style_nodes (g_nodes G) selected (reset_hover hovered) dim_nodes)
       (\<lambda>ns. Inr (G\<lparr>g_nodes := ns\<rparr>))"

definition get_directional_edges :: "digraph \<Rightarrow> string \<Rightarrow> string list \<Rightarrow> edge list" where
  "get_directional_edges G node directions =
     (if ''upstream'' \<in> set directions then in_edges G node else [])
     @ (if ''downstream'' \<in> set directions then out_edges G node else [])"

definition determine_visible_elements ::
  "digraph \<Rightarrow> string option \<Rightarrow> string option \<Rightarrow> string list \<Rightarrow> string
     \<Rightarrow> string set \<times> edge list" where
  "determine_visible_elements G selected0 hovered directions mode =
     (let all_nodes = set (node_ids G);
          selected = (if selected0 = Some ''All'' then None else selected0)
      in if mode = ''filter'' then
           (if truthy selected \<and> the selected \<in> all_nodes then
              (let visible_edges = get_directional_edges G (the selected) directions
               in (insert (the selected)
                     (set (map (\<lambda>(u, v, d). u) visible_edges)
                        \<union> set (map (\<lambda>(u, v, d). v) visible_edges)),
                   visible_edges))
            else (all_nodes, all_edges G))
         else if mode = ''interactive'' then
           (if truthy selected \<and> the selected \<in> all_nodes then
              (let visible_edges = get_directional_edges G (the selected) directions
               in (insert (the selected)
                     (set (map (\<lambda>(u, v, d). u) visible_edges)
                        \<union> set (map (\<lambda>(u, v, d). v) visible_edges)),
                   visible_edges))
            else (all_nodes, all_edges G))
         else ({}, []))"

subsection \<open>The figure (\<open>_create_edge_traces\<close>, \<open>_create_node_shapes_and_annotations\<close>,
  \<open>_create_interactive_node_trace\<close>, \<open>build_figure\<close>)\<close>

text \<open>
  The figure is represented by its styling and identifying content: for an edge trace the
  line width, colour, opacity and hover text; for a node shape the fill, border and
  opacity; for a label its place, text and opacity; for the marker trace its coordinates
  and payload. The curve points, the arrow and rectangle paths, the tier bands, the
  column headings, the axis ranges and the height are numeric geometry that the figure
  record leaves out; of the functions that compute them only the exceptions are kept.
\<close>

record edge_trace =
  tr_width :: real
  tr_color :: string
  tr_opacity :: real
  tr_text :: string

record node_shape =
  sh_fillcolor :: string
  sh_line_color :: string
  sh_line_width :: nat
  sh_opacity :: real

record annotation =
  an_x :: real
  an_y :: real
  an_text :: string
  an_opacity :: real

record marker_trace =
  mk_x :: "real list"
  mk_y :: "real list"
  mk_text :: "string list"
  mk_customdata :: "string list"
  mk_size :: "real list"

record figure =
  fig_edge_traces :: "edge_trace list"
  fig_interactive_trace :: marker_trace
  fig_node_shapes :: "node_shape list"
  fig_node_annotations :: "annotation list"
  fig_datarevision :: int

text \<open>\<open>self.nodes_df[self.nodes_df["DOMAIN_ID"] == n]["X_GROUP"].values[0]\<close>.\<close>

definition x_group_of :: "graph_builder \<Rightarrow> string \<Rightarrow> py_error + int" where
  "x_group_of self n =
     (case filter (\<lambda>row. DOMAIN_ID row = n) (nodes_df self) of
        [] \<Rightarrow> Inl IndexError
      | row # _ \<Rightarrow> Inr (X_GROUP row))"

text \<open>\<open>G.nodes[n][key]\<close> for a key that \<open>add_node\<close> sets: \<open>KeyError\<close> when the node is
  missing or has no attributes.\<close>

definition node_attr :: "digraph \<Rightarrow> string \<Rightarrow> py_error + node_attrs" where
  "node_attr G n = (case map_of (g_nodes G) n of Some (Some a) \<Rightarrow> Inr a | _ \<Rightarrow> Inl KeyError)"

text \<open>The arrow of the hover text, U+2794, lies outside the range of \<open>char\<close>; it is
  written as its three UTF-8 bytes.\<close>

definition arrow_text :: string where
  "arrow_text = [CHR 0xE2, CHR 0x9E, CHR 0x94]"

fun create_edge_traces ::
  "graph_builder \<Rightarrow> digraph \<Rightarrow> (string \<times> (real \<times> real)) list \<Rightarrow> edge list \<Rightarrow> string set
     \<Rightarrow> string \<Rightarrow> py_error + edge_trace list" where
  "create_edge_traces self G ps [] visible_nodes mode = Inr []"
| "create_edge_traces self G ps ((u, v, data) # visible_edges) visible_nodes mode =
     py_bind (py_lookup ps u) (\<lambda>(x0, y0).
     py_bind (py_lookup ps v) (\<lambda>(x1, y1).
     py_bind (x_group_of self u) (\<lambda>xu.
     py_bind (x_group_of self v) (\<lambda>xv.
     py_bind (node_attr G u) (\<lambda>source.
     py_bind (node_attr G v) (\<lambda>target.
     py_bind (get_edge_color xu xv (tier data)) (\<lambda>edge_color.
       let edge_opacity = 6 / 10;
           tier_label = (case map_of TIER_LABEL_MAP (tier data) of
                           Some l \<Rightarrow> l
                         | None \<Rightarrow> ''Tier '' @ string_of_int (tier data));
           trace = \<lparr>tr_width = 3 * weight data, tr_color = edge_color,
                    tr_opacity = edge_opacity,
                    tr_text = ''<b>'' @ label source @ ''  '' @ arrow_text @ ''  '' @ label target
                              @ ''</b><br>'' @ description data
                              @ ''<br>Dependency Type: <b>'' @ tier_label @ ''</b>''\<rparr>
       in py_bind (create_edge_traces self G ps visible_edges visible_nodes mode)
            (\<lambda>edge_traces. Inr (trace # edge_traces)))))))))"

text \<open>The loop \<open>for n in G.nodes()\<close> of \<open>_create_node_shapes_and_annotations\<close>; the
  parameter \<open>visible_nodes\<close> is passed along as in the source, which never reads it.\<close>

fun node_shapes_loop ::
  "digraph \<Rightarrow> (string \<times> (real \<times> real)) list \<Rightarrow> string set \<Rightarrow> string list
     \<Rightarrow> py_error + (node_shape list \<times> annotation list)" where
  "node_shapes_loop G ps visible_nodes [] = Inr ([], [])"
| "node_shapes_loop G ps visible_nodes (n # ns) =
     py_bind (py_lookup ps n) (\<lambda>(x, y).
     py_bind (node_attr G n) (\<lambda>a.
       let shape = \<lparr>sh_fillcolor = color a, sh_line_color = border a, sh_line_width = 4,
                    sh_opacity = (case opacity a of Some ov \<Rightarrow> ov | None \<Rightarrow> 1)\<rparr>;
           note = \<lparr>an_x = x, an_y = y, an_text = wrapped_label a,
                   an_opacity = (case opacity a of Some ov \<Rightarrow> ov | None \<Rightarrow> 1)\<rparr>
       in py_bind (node_shapes_loop G ps visible_nodes ns)
            (\<lambda>(shapes, annotations). Inr (shape # shapes, note # annotations))))"

definition create_node_shapes_and_annotations ::
  "digraph \<Rightarrow> (string \<times> (real \<times> real)) list \<Rightarrow> string set
     \<Rightarrow> py_error + (node_shape list \<times> annotation list)" where
  "create_node_shapes_and_annotations G ps visible_nodes =
     node_shapes_loop G ps visible_nodes (node_ids G)"

fun marker_loop ::
  "digraph \<Rightarrow> (string \<times> (real \<times> real)) list \<Rightarrow> string list \<Rightarrow> py_error + marker_trace" where
  "marker_loop G ps [] =
     Inr \<lparr>mk_x = [], mk_y = [], mk_text = [], mk_customdata = [], mk_size = []\<rparr>"
| "marker_loop G ps (node_id # ns) =
     py_bind (py_lookup ps node_id) (\<lambda>(x, y).
     py_bind (node_attr G node_id) (\<lambda>a.
     py_bind (marker_loop G ps ns) (\<lambda>m.
       Inr (m\<lparr>mk_x := x # mk_x m, mk_y := y # mk_y m, mk_text := label a # mk_text m,
               mk_customdata := node_id # mk_customdata m\<rparr>))))"

definition create_interactive_node_trace ::
  "graph_builder \<Rightarrow> digraph \<Rightarrow> (string \<times> (real \<times> real)) list \<Rightarrow> py_error + marker_trace" where
  "create_interactive_node_trace self G ps =
     py_bind (marker_loop G ps (node_ids G)) (\<lambda>m.
       Inr (m\<lparr>mk_size := map (\<lambda>(n, (w, h, l)). max w h * 100) (node_dimensions self)\<rparr>))"

text \<open>What \<open>_create_tier_backgrounds\<close> can raise: \<open>min()\<close> of the empty list of node
  abscissae.\<close>

definition create_tier_backgrounds_raises ::
  "digraph \<Rightarrow> (string \<times> (real \<times> real)) list \<Rightarrow> py_error + unit" where
  "create_tier_backgrounds_raises G ps = (if ps = [] then Inl ValueError else Inr ())"

text \<open>What \<open>_create_x_group_annotations\<close> can raise: the lookup of a node's row, and
  \<open>x_group_positions[x_group]\<close> for a group outside \<open>X_GROUP_LABELS\<close>.\<close>

fun create_x_group_annotations_raises ::
  "graph_builder \<Rightarrow> (string \<times> (real \<times> real)) list \<Rightarrow> py_error + unit" where
  "create_x_group_annotations_raises self [] = Inr ()"
| "create_x_group_annotations_raises self ((node_id, p) # ps) =
     py_bind (x_group_of self node_id) (\<lambda>x_group.
       if x_group \<in> set (map fst X_GROUP_LABELS)
       then create_x_group_annotations_raises self ps
       else Inl KeyError)"

text \<open>\<open>build_figure\<close>; \<open>now\<close> is the reading of \<open>time.time()\<close>. The graph is styled in
  place, so the steps after \<open>_apply_node_styles\<close> see the styled graph.\<close>

definition build_figure ::
  "graph_builder \<Rightarrow> string option \<Rightarrow> string list \<Rightarrow> string \<Rightarrow> string option \<Rightarrow> real
     \<Rightarrow> py_error + figure" where
  "build_figure self selected directions mode hovered now =
     py_bind (assign_stacked_positions self) (\<lambda>positions.
     py_bind (build_networkx_graph self positions) (\<lambda>G0.
       let ps = get_pos G0;
           (highlight_nodes, secondary_nodes, dim_nodes) =
             determine_interaction_state G0 selected hovered mode
       in
     py_bind (apply_node_styles G0 selected hovered highlight_nodes dim_nodes) (\<lambda>G.
       let (visible_nodes, visible_edges) =
             determine_visible_elements G selected hovered directions mode
       in
     py_bind (if visible_edges \<noteq> []
              then create_edge_traces self G ps visible_edges visible_nodes mode
              else Inr []) (\<lambda>edge_traces.
     py_bind (create_tier_backgrounds_raises G ps) (\<lambda>_.
     py_bind (create_node_shapes_and_annotations G ps visible_nodes)
       (\<lambda>(node_shapes, node_annotations).
     py_bind (create_x_group_annotations_raises self ps) (\<lambda>_.
     py_bind (create_interactive_node_trace self G ps) (\<lambda>interactive_trace.
       Inr \<lparr>fig_edge_traces = edge_traces, fig_interactive_trace = interactive_trace,
            fig_node_shapes = node_shapes, fig_node_annotations = node_annotations,
            fig_datarevision = py_int_of_float (now * 1000)\<rparr>))))))))"

subsection \<open>The edge colour rule in the words of the specification\<close>

text \<open>The base colour of an edge by the X-groups of its two endpoints, in either order,
  as its RGB triple: blue \<open>#4A90E2\<close>, cyan \<open>#72CBE2\<close>, purple \<open>#A680B8\<close>.\<close>

definition spec_base_rgb :: "int \<Rightarrow> int \<Rightarrow> int \<times> int \<times> int" where
  "spec_base_rgb xu xv =
     (if (xu = 1 \<and> xv = 2) \<or> (xu = 2 \<and> xv = 1) then (0x4A, 0x90, 0xE2)
      else if (xu = 1 \<and> xv = 3) \<or> (xu = 3 \<and> xv = 1) \<or> (xu = 2 \<and> xv = 3) \<or> (xu = 3 \<and> xv = 2)
        then (0x72, 0xCB, 0xE2)
      else if (xu = 4 \<and> xv \<in> {1, 2, 3}) \<or> (xv = 4 \<and> xu \<in> {1, 2, 3}) then (0xA6, 0x80, 0xB8)
      else (0x4A, 0x90, 0xE2))"

text \<open>The shift of a tier: \<open>{2: +0.3, 3: 0.0, 4: -0.3}\<close>, and no shift for any other tier.\<close>

definition spec_shift :: "int \<Rightarrow> real" where
  "spec_shift t = (if t = 2 then 3 / 10 else if t = 3 then 0 else if t = 4 then - (3 / 10) else 0)"

text \<open>A positive shift moves a channel toward 255 by that fraction of the distance, a
  negative one toward 0 by its absolute value; the result is cut to an integer.\<close>

definition spec_channel :: "real \<Rightarrow> int \<Rightarrow> int" where
  "spec_channel shift c =
     (if shift > 0 then py_int_of_float (real_of_int c + shift * (255 - real_of_int c))
      else if shift < 0 then py_int_of_float (real_of_int c - \<bar>shift\<bar> * real_of_int c)
      else c)"

definition spec_edge_color :: "int \<Rightarrow> int \<Rightarrow> int \<Rightarrow> string" where
  "spec_edge_color xu xv t =
     (case spec_base_rgb xu xv of (r, g, b) \<Rightarrow>
        ''rgb('' @ string_of_int (spec_channel (spec_shift t) r) @ '',''
          @ string_of_int (spec_channel (spec_shift t) g) @ '',''
          @ string_of_int (spec_channel (spec_shift t) b) @ '')'')"

subsection \<open>Example tables\<close>

text \<open>Two domains of maturity 1.0 in the columns 1 and 2 with a dependency between them
  (the scenario of the specification), and a third domain of maturity 1.5 that no
  dependency touches.\<close>

definition ex_nodes :: "domain_row list" where
  "ex_nodes =
     [\<lparr>DOMAIN_ID = ''A'', DOMAIN_NAME = ''Alpha'', X_GROUP = 1, CURRENT_MATURITY = 1,
       CATEGORY = ''Core'', COLOR_HEX = ''#f0f0f0'', BORDER_HEX = ''#333''\<rparr>,
      \<lparr>DOMAIN_ID = ''B'', DOMAIN_NAME = ''Beta'', X_GROUP = 2, CURRENT_MATURITY = 1,
       CATEGORY = ''Core'', COLOR_HEX = ''#f0f0f0'', BORDER_HEX = ''#333''\<rparr>,
      \<lparr>DOMAIN_ID = ''C'', DOMAIN_NAME = ''Gamma'', X_GROUP = 1, CURRENT_MATURITY = 3 / 2,
       CATEGORY = ''Core'', COLOR_HEX = ''#f0f0f0'', BORDER_HEX = ''#333''\<rparr>]"

definition ex_edges :: "dependency_row list" where
  "ex_edges =
     [\<lparr>SOURCE_DOMAIN_ID = ''A'', TARGET_DOMAIN_ID = ''B'', WEIGHT = 1, TIER = 1,
       DESCRIPTION = ''feeds''\<rparr>]"

text \<open>The builder, the positions and the graph that the code computes from them on the
  exact platform (lemma \<open>ex_pipeline\<close> below).\<close>

definition ex_builder :: graph_builder where
  "ex_builder =
     \<lparr>nodes_df = ex_nodes, edges_df = ex_edges,
      node_dimensions =
        [(''A'', 8 / 10, 3 / 10, ''Alpha''), (''B'', 8 / 10, 3 / 10, ''Beta''),
         (''C'', 8 / 10, 3 / 10, ''Gamma'')],
      the_platform = exact_platform\<rparr>"

definition ex_positions :: "(string \<times> (real \<times> real)) list" where
  "ex_positions = [(''A'', 34 / 10, 0), (''B'', 68 / 10, 0), (''C'', 34 / 10, 36 / 10)]"

definition ex_attrs :: "string \<Rightarrow> real \<times> real \<Rightarrow> node_attrs" where
  "ex_attrs name p =
     \<lparr>label = name, wrapped_label = name, category = ''Core'', color = ''#f0f0f0'',
      border = ''#333'', original_border = ''#333'', pos = p, width = 8 / 10,
      height = 3 / 10, glow = None, opacity = None\<rparr>"

definition ex_graph :: digraph where
  "ex_graph =
     \<lparr>g_nodes = [(''A'', Some (ex_attrs ''Alpha'' (34 / 10, 0))),
                 (''B'', Some (ex_attrs ''Beta'' (68 / 10, 0))),
                 (''C'', Some (ex_attrs ''Gamma'' (34 / 10, 36 / 10)))],
      g_edges = [((''A'', ''B''), \<lparr>weight = 1, tier = 1, description = ''feeds''\<rparr>)]\<rparr>"

text \<open>A table with a domain of maturity 3.0, one of the levels of the data model.\<close>

definition ex_nodes_level3 :: "domain_row list" where
  "ex_nodes_level3 =
     [\<lparr>DOMAIN_ID = ''A'', DOMAIN_NAME = ''Alpha'', X_GROUP = 1, CURRENT_MATURITY = 1,
       CATEGORY = ''Core'', COLOR_HEX = ''#f0f0f0'', BORDER_HEX = ''#333''\<rparr>,
      \<lparr>DOMAIN_ID = ''D'', DOMAIN_NAME = ''Delta'', X_GROUP = 2, CURRENT_MATURITY = 3,
       CATEGORY = ''Core'', COLOR_HEX = ''#f0f0f0'', BORDER_HEX = ''#333''\<rparr>]"

definition ex_builder_level3 :: graph_builder where
  "ex_builder_level3 =
     \<lparr>nodes_df = ex_nodes_level3, edges_df = [],
      node_dimensions =
        [(''A'', 8 / 10, 3 / 10, ''Alpha''), (''D'', 8 / 10, 3 / 10, ''Delta'')],
      the_platform = exact_platform\<rparr>"

subsection \<open>The collision rule in the words of the specification\<close>

text \<open>Two vertical extents \<open>y \<plusminus> h / 2\<close> and \<open>y' \<plusminus> h' / 2\<close> overlap within the minimum gap
  when neither lies more than the gap above the other; the bounds are floats.\<close>

definition extents_overlap :: "graph_builder \<Rightarrow> real \<Rightarrow> real \<Rightarrow> real \<Rightarrow> real \<Rightarrow> bool" where
  "extents_overlap self y h y' h' =
     (f_sub (the_platform self) y (f_div (the_platform self) h 2)
        \<le> f_add (the_platform self)
             (f_add (the_platform self) y' (f_div (the_platform self) h' 2)) (min_gap self)
      \<and> f_sub (the_platform self)
             (f_sub (the_platform self) y' (f_div (the_platform self) h' 2)) (min_gap self)
        \<le> f_add (the_platform self) y (f_div (the_platform self) h 2))"

text \<open>The predicate as the claim words it: some node of the new batch overlaps a committed
  node of the same X-group, or another member of the batch.\<close>

definition spec_has_collisions ::
  "graph_builder \<Rightarrow> real list \<Rightarrow> real list \<Rightarrow> used_coords \<Rightarrow> int \<Rightarrow> bool" where
  "spec_has_collisions self ys hs used cur =
     (let batch = zip ys hs in
      list_ex (\<lambda>i.
          list_ex (\<lambda>((g, ey), eh).
              g = cur \<and> extents_overlap self (fst (batch ! i)) (snd (batch ! i)) ey eh)
            used
          \<or> list_ex (\<lambda>j. j \<noteq> i
                \<and> extents_overlap self (fst (batch ! i)) (snd (batch ! i))
                     (fst (batch ! j)) (snd (batch ! j)))
              [0..<length batch])
        [0..<length batch])"

text \<open>The spacing of the attempt number \<open>k\<close> (from 0): the initial 0.7 multiplied \<open>k\<close> times
  by 1.08; the grid of that attempt, and whether it collides.\<close>

definition attempt_spacing :: "graph_builder \<Rightarrow> nat \<Rightarrow> real" where
  "attempt_spacing self k =
     ((\<lambda>s. f_mul (the_platform self) s (f_lit (the_platform self) (108 / 100))) ^^ k)
       (local_y_spacing self)"

definition attempt_grid :: "graph_builder \<Rightarrow> nat \<Rightarrow> nat \<Rightarrow> real list" where
  "attempt_grid self count k = calculate_y_grid self count (attempt_spacing self k)"

definition attempt_collides ::
  "graph_builder \<Rightarrow> nat \<Rightarrow> real \<Rightarrow> real list \<Rightarrow> used_coords \<Rightarrow> int \<Rightarrow> nat \<Rightarrow> bool" where
  "attempt_collides self count tier_offset hs used cur k =
     has_intelligent_collisions self
       (map (\<lambda>offset. f_add (the_platform self) tier_offset offset) (attempt_grid self count k))
       hs used cur"

text \<open>Three domains with labels of five lines in one bucket.\<close>

definition ex_nodes_tall :: "domain_row list" where
  "ex_nodes_tall =
     [\<lparr>DOMAIN_ID = ''D1'',
       DOMAIN_NAME = ''Data Governance and Quality Management Frameworks for Enterprise'',
       X_GROUP = 1, CURRENT_MATURITY = 1, CATEGORY = ''Core'', COLOR_HEX = ''#f0f0f0'',
       BORDER_HEX = ''#333''\<rparr>,
      \<lparr>DOMAIN_ID = ''D2'',
       DOMAIN_NAME = ''Data Governance and Quality Management Frameworks for Finance'',
       X_GROUP = 1, CURRENT_MATURITY = 1, CATEGORY = ''Core'', COLOR_HEX = ''#f0f0f0'',
       BORDER_HEX = ''#333''\<rparr>,
      \<lparr>DOMAIN_ID = ''D3'',
       DOMAIN_NAME = ''Data Governance and Quality Management Frameworks for Lending'',
       X_GROUP = 1, CURRENT_MATURITY = 1, CATEGORY = ''Core'', COLOR_HEX = ''#f0f0f0'',
       BORDER_HEX = ''#333''\<rparr>]"

definition ex_builder_tall :: graph_builder where
  "ex_builder_tall =
     \<lparr>nodes_df = ex_nodes_tall, edges_df = [],
      node_dimensions =
        [(''D1'', 13 / 10, 78 / 100,
          ''Data Governance<br>and Quality<br>Management<br>Frameworks for<br>Enterprise''),
         (''D2'', 13 / 10, 78 / 100,
          ''Data Governance<br>and Quality<br>Management<br>Frameworks for<br>Finance''),
         (''D3'', 13 / 10, 78 / 100,
          ''Data Governance<br>and Quality<br>Management<br>Frameworks for<br>Lending'')],
      the_platform = exact_platform\<rparr>"

subsection \<open>The render callback (\<open>update_graph\<close> in \<open>callbacks.py\<close>)\<close>




section \<open>Properties\<close>

subsection \<open>The label wrapper on short labels\<close>

lemma split_ws_nonempty: "x \<in> set (split_ws w cs) \<Longrightarrow> x \<noteq> []"
  by (induction w cs rule: split_ws.induct) (auto split: if_splits)

lemma length_join_split_ws:
  "length (py_join '' '' (split_ws w cs)) \<le> length w + length cs"
proof (induction w cs rule: split_ws.induct)
  case (1 w)
  then show ?case by simp
next
  case (2 w c cs)
  show ?case
  proof (cases "is_space c")
    case False
    with 2 show ?thesis by simp
  next
    case True
    show ?thesis
    proof (cases "w = []")
      case True
      with 2 \<open>is_space c\<close> show ?thesis by simp
    next
      case False
      with 2 \<open>is_space c\<close> have ih: "length (py_join '' '' (split_ws [] cs)) \<le> length cs"
        by simp
      show ?thesis using ih False \<open>is_space c\<close>
        by (cases "split_ws [] cs") auto
    qed
  qed
qed

lemma py_join_absorb:
  "py_join '' '' ((cur @ '' '' @ w) # ws) = py_join '' '' (cur # w # ws)"
  by (cases ws) auto

lemma length_join_head: "length x \<le> length (py_join sep (x # xs))"
  by (cases xs) auto

text \<open>While the words joined so far and the words to come fit the target, the loop keeps
  one line.\<close>

lemma wrap_loop_fits:
  "cur \<noteq> [] \<Longrightarrow> length (py_join '' '' (cur # ws)) \<le> target
     \<Longrightarrow> wrap_loop target ws lines cur = (lines, py_join '' '' (cur # ws))"
proof (induction ws arbitrary: cur)
  case Nil
  then show ?case by simp
next
  case (Cons w ws)
  let ?t = "cur @ '' '' @ w"
  have eq: "py_join '' '' (?t # ws) = py_join '' '' (cur # w # ws)"
    by (rule py_join_absorb)
  have "length ?t \<le> length (py_join '' '' (?t # ws))"
    by (rule length_join_head)
  with eq Cons.prems have fit: "length ?t \<le> target" by simp
  have "wrap_loop target ws lines ?t = (lines, py_join '' '' (?t # ws))"
    using Cons.IH[of ?t] eq Cons.prems by simp
  with fit Cons.prems(1) eq show ?case by (simp add: Let_def)
qed

lemma wrap_short_joined:
  assumes "length s \<le> 15"
  shows "wrap_label_intelligently s = (py_join '' '' (py_split s), 1)"
proof (cases "py_split s")
  case Nil
  then show ?thesis by (simp add: wrap_label_intelligently_def py_split_def)
next
  case (Cons w ws)
  then have ne: "s \<noteq> []" by (auto simp: py_split_def)
  have wne: "w \<noteq> []"
    using split_ws_nonempty[of w "[]" s] Cons by (simp add: py_split_def)
  have len: "length (py_join '' '' (w # ws)) \<le> length s"
    using length_join_split_ws[of "[]" s] Cons by (simp add: py_split_def)
  have "length w \<le> length (py_join '' '' (w # ws))"
    by (rule length_join_head)
  with len have lw: "length w \<le> length s" by simp
  have "wrap_loop (length s) (w # ws) [] [] = wrap_loop (length s) ws [] w"
    using lw by simp
  also have "\<dots> = ([], py_join '' '' (w # ws))"
    by (rule wrap_loop_fits[OF wne len])
  finally have loop: "wrap_loop (length s) (w # ws) [] [] = ([], py_join '' '' (w # ws))" .
  have jne: "py_join '' '' (w # ws) \<noteq> []" using wne by (cases ws) auto
  show ?thesis using assms ne jne
    by (simp add: wrap_label_intelligently_def Let_def Cons loop del: wrap_loop.simps)
qed

lemma split_ws_word:
  "\<forall>c\<in>set w. \<not> is_space c \<Longrightarrow> split_ws a (w @ rest) = split_ws (a @ w) rest"
  by (induction w arbitrary: a) auto

lemma split_join_words:
  "\<forall>w\<in>set ws. w \<noteq> [] \<and> (\<forall>c\<in>set w. \<not> is_space c) \<Longrightarrow> py_split (py_join '' '' ws) = ws"
proof (induction "'' ''" ws rule: py_join.induct)
  case 1
  then show ?case by (simp add: py_split_def)
next
  case (2 x)
  then show ?case using split_ws_word[of x "[]" "[]"] by (simp add: py_split_def)
next
  case (3 x y ys)
  have sp: "is_space CHR '' ''" by (simp add: is_space_def)
  have "split_ws [] (x @ '' '' @ py_join '' '' (y # ys))
          = split_ws x ('' '' @ py_join '' '' (y # ys))"
    using split_ws_word[of x "[]"] 3(2) by simp
  also have "\<dots> = x # split_ws [] (py_join '' '' (y # ys))"
    using 3(2) sp by simp
  finally show ?case using 3 by (simp add: py_split_def)
qed

text \<open>
  Claim C8, as stated: a label of at most 15 characters is returned unchanged with line
  count 1. The wrapper rebuilds the label from \<open>text.split()\<close>, so leading, trailing and
  repeated whitespace is lost: the label \<open>Data  Quality\<close> (two blanks) comes back with one.
\<close>

theorem wrap_label_short_counterexample:
  "length ''Data  Quality'' \<le> 15
     \<and> wrap_label_intelligently ''Data  Quality'' = (''Data Quality'', 1)
     \<and> wrap_label_intelligently ''Data  Quality'' \<noteq> (''Data  Quality'', 1)"
  by code_simp

text \<open>
  Claim C8, amended: for a label of at most 15 characters the wrapper returns line count 1
  and the words of the label joined by single blanks; this is the label itself whenever
  the label consists of non-empty words without whitespace that are separated by single
  blanks. Whitespace is what \<open>str.split()\<close> takes for it, the next-line control and
  the no-break space included.
\<close>

theorem wrap_label_short:
  "length s \<le> 15 \<Longrightarrow>
     wrap_label_intelligently s = (py_join '' '' (py_split s), 1)
     \<and> (s = py_join '' '' ws \<and> (\<forall>w\<in>set ws. w \<noteq> [] \<and> (\<forall>c\<in>set w. \<not> is_space c))
          \<longrightarrow> wrap_label_intelligently s = (s, 1))"
  using wrap_short_joined[of s] split_join_words[of ws] by auto

theorem wrap_label_short_witness:
  "length ''Data Quality'' \<le> 15
     \<and> ''Data Quality'' = py_join '' '' [''Data'', ''Quality'']
     \<and> wrap_label_intelligently ''Data Quality'' = (''Data Quality'', 1)"
proof -
  have h1: "length ''Data Quality'' \<le> 15" by simp
  have h2: "''Data Quality'' = py_join '' '' [''Data'', ''Quality'']" by simp
  have h3: "\<forall>w\<in>set [''Data'', ''Quality'']. w \<noteq> [] \<and> (\<forall>c\<in>set w. \<not> is_space c)"
    by (simp add: is_space_def)
  from wrap_label_short[OF h1, of "[''Data'', ''Quality'']"] h2 h3
  have "wrap_label_intelligently ''Data Quality'' = (''Data Quality'', 1)" by blast
  with h1 h2 show ?thesis by blast
qed

subsection \<open>Edge colours\<close>

lemma blend_spec_channel: "blend shift c = spec_channel shift c"
proof -
  consider (pos) "shift > 0" | (neg) "shift < 0" | (zero) "shift = 0" by linarith
  then show ?thesis
  proof cases
    case pos
    have "real_of_int c + (255 - real_of_int c) * shift
            = real_of_int c + shift * (255 - real_of_int c)"
      by (simp only: mult.commute)
    with pos show ?thesis by (simp only: blend_def spec_channel_def if_True)
  next
    case neg
    then have "real_of_int c * (1 + shift) = real_of_int c - \<bar>shift\<bar> * real_of_int c"
      by (simp add: algebra_simps)
    moreover from neg have "\<not> shift > 0" by simp
    ultimately show ?thesis using neg
      by (simp only: blend_def spec_channel_def if_True if_False)
  next
    case zero
    then show ?thesis by (simp add: blend_def spec_channel_def py_int_of_float_def)
  qed
qed

lemma py_int16_base_channels:
  "py_int16 ''4A'' = Inr 0x4A" "py_int16 ''90'' = Inr 0x90" "py_int16 ''E2'' = Inr 0xE2"
  "py_int16 ''72'' = Inr 0x72" "py_int16 ''CB'' = Inr 0xCB"
  "py_int16 ''A6'' = Inr 0xA6" "py_int16 ''80'' = Inr 0x80" "py_int16 ''B8'' = Inr 0xB8"
  by (simp_all add: py_int16_def py_strip_def is_space_def hex_digit_def)

lemma adjust_brightness_base:
  "adjust_brightness ''#4A90E2'' s =
     Inr (''rgb('' @ string_of_int (blend s 0x4A) @ '','' @ string_of_int (blend s 0x90)
            @ '','' @ string_of_int (blend s 0xE2) @ '')'')"
  "adjust_brightness ''#72CBE2'' s =
     Inr (''rgb('' @ string_of_int (blend s 0x72) @ '','' @ string_of_int (blend s 0xCB)
            @ '','' @ string_of_int (blend s 0xE2) @ '')'')"
  "adjust_brightness ''#A680B8'' s =
     Inr (''rgb('' @ string_of_int (blend s 0xA6) @ '','' @ string_of_int (blend s 0x80)
            @ '','' @ string_of_int (blend s 0xB8) @ '')'')"
  by (simp_all add: adjust_brightness_def py_bind_def py_int16_base_channels)

lemma brightness_map_spec_shift:
  "(case map_of BRIGHTNESS_MAP t of Some v \<Rightarrow> v | None \<Rightarrow> 0) = spec_shift t"
  by (simp add: BRIGHTNESS_MAP_def spec_shift_def)

lemma in_pair_list: "(X \<in> set [A, B]) = (X = A \<or> X = B)"
  by auto

text \<open>The choice of the base colour, by the four branches of the source.\<close>

lemma get_edge_color_branch:
  assumes "({xu, xv} = {1, 2}) = c1"
    and "({xu, xv} \<in> set [{1, 3}, {2, 3}]) = c2"
    and "({xu, xv} \<inter> {1, 2, 3} \<noteq> {} \<and> 4 \<in> {xu, xv}) = c3"
  shows "get_edge_color xu xv t =
           adjust_brightness
             (if c1 then ''#4A90E2'' else if c2 then ''#72CBE2''
              else if c3 then ''#A680B8'' else ''#4A90E2'')
             (spec_shift t)"
  unfolding get_edge_color_def Let_def brightness_map_spec_shift
  by (simp only: assms)

lemma get_edge_color_spec: "get_edge_color xu xv t = Inr (spec_edge_color xu xv t)"
proof -
  consider (blue) "(xu = 1 \<and> xv = 2) \<or> (xu = 2 \<and> xv = 1)"
    | (cyan) "(xu = 1 \<and> xv = 3) \<or> (xu = 3 \<and> xv = 1) \<or> (xu = 2 \<and> xv = 3) \<or> (xu = 3 \<and> xv = 2)"
    | (purple) "(xu = 4 \<and> xv \<in> {1, 2, 3}) \<or> (xv = 4 \<and> xu \<in> {1, 2, 3})"
    | (other) "\<not> ((xu = 1 \<and> xv = 2) \<or> (xu = 2 \<and> xv = 1))"
        "\<not> ((xu = 1 \<and> xv = 3) \<or> (xu = 3 \<and> xv = 1) \<or> (xu = 2 \<and> xv = 3) \<or> (xu = 3 \<and> xv = 2))"
        "\<not> ((xu = 4 \<and> xv \<in> {1, 2, 3}) \<or> (xv = 4 \<and> xu \<in> {1, 2, 3}))"
    by blast
  then show ?thesis
  proof cases
    case blue
    then have c1: "({xu, xv} = {1, 2}) = True" by auto
    from blue have b: "spec_base_rgb xu xv = (0x4A, 0x90, 0xE2)"
      by (auto simp: spec_base_rgb_def)
    show ?thesis
      using get_edge_color_branch[OF c1 refl refl, of t] b
      by (simp add: spec_edge_color_def adjust_brightness_base blend_spec_channel)
  next
    case cyan
    then have c1: "({xu, xv} = {1, 2}) = False" by (auto simp: doubleton_eq_iff)
    from cyan have c2: "({xu, xv} \<in> set [{1, 3}, {2, 3}]) = True"
      unfolding in_pair_list by auto
    from cyan have b: "spec_base_rgb xu xv = (0x72, 0xCB, 0xE2)"
      by (auto simp: spec_base_rgb_def)
    show ?thesis
      using get_edge_color_branch[OF c1 c2 refl, of t] b
      by (simp add: spec_edge_color_def adjust_brightness_base blend_spec_channel)
  next
    case purple
    then have c1: "({xu, xv} = {1, 2}) = False" by (auto simp: doubleton_eq_iff)
    from purple have c2: "({xu, xv} \<in> set [{1, 3}, {2, 3}]) = False"
      unfolding in_pair_list by (auto simp: doubleton_eq_iff)
    from purple have c3: "({xu, xv} \<inter> {1, 2, 3} \<noteq> {} \<and> 4 \<in> {xu, xv}) = True" by auto
    from purple have b: "spec_base_rgb xu xv = (0xA6, 0x80, 0xB8)"
      by (auto simp: spec_base_rgb_def)
    show ?thesis
      using get_edge_color_branch[OF c1 c2 c3, of t] b
      by (simp add: spec_edge_color_def adjust_brightness_base blend_spec_channel)
  next
    case other
    then have c1: "({xu, xv} = {1, 2}) = False" by (auto simp: doubleton_eq_iff)
    from other have c2: "({xu, xv} \<in> set [{1, 3}, {2, 3}]) = False"
      unfolding in_pair_list by (auto simp: doubleton_eq_iff)
    from other have c3: "({xu, xv} \<inter> {1, 2, 3} \<noteq> {} \<and> 4 \<in> {xu, xv}) = False" by auto
    from other have b: "spec_base_rgb xu xv = (0x4A, 0x90, 0xE2)"
      by (simp add: spec_base_rgb_def)
    show ?thesis
      using get_edge_color_branch[OF c1 c2 c3, of t] b
      by (simp add: spec_edge_color_def adjust_brightness_base blend_spec_channel)
  qed
qed

text \<open>
  Claim C7: the colour of an edge is the base colour fixed by the unordered pair of the
  endpoint X-groups (groups 1 and 2 blue; 1 and 3, or 2 and 3, cyan; group 4 with one of
  1, 2, 3 purple; blue otherwise), shifted by the tier's entry of \<open>{2: +0.3, 3: 0.0, 4: -0.3}\<close>,
  each channel toward white for a positive shift and toward black for a negative one;
  an edge of tier 1 between groups 1 and 2 gets the unshifted blue.
\<close>

theorem get_edge_color_table:
  "get_edge_color xu xv t = Inr (spec_edge_color xu xv t)
     \<and> get_edge_color 1 2 1 = Inr ''rgb(74,144,226)''
     \<and> get_edge_color 1 2 2 = Inr ''rgb(128,177,234)''
     \<and> get_edge_color 3 2 4 = Inr ''rgb(79,142,158)''
     \<and> get_edge_color 4 1 3 = Inr ''rgb(166,128,184)''"
proof -
  have "get_edge_color 1 2 1 = Inr ''rgb(74,144,226)''" by code_simp
  moreover have "get_edge_color 1 2 2 = Inr ''rgb(128,177,234)''" by code_simp
  moreover have "get_edge_color 3 2 4 = Inr ''rgb(79,142,158)''" by code_simp
  moreover have "get_edge_color 4 1 3 = Inr ''rgb(166,128,184)''" by code_simp
  ultimately show ?thesis using get_edge_color_spec[of xu xv t] by blast
qed

subsection \<open>The example, computed\<close>

lemma py_bind_Inr_iff: "py_bind m f = Inr y \<longleftrightarrow> (\<exists>x. m = Inr x \<and> f x = Inr y)"
  by (cases m) (simp_all add: py_bind_def)

lemma py_bind_Inr: "py_bind (Inr x) f = f x"
  by (simp add: py_bind_def)

lemma py_bind_Inl: "py_bind (Inl e) f = Inl e"
  by (simp add: py_bind_def)

lemma ex_dimensions:
  "precalculate_node_dimensions exact_platform ex_nodes
     = Inr [(''A'', 8 / 10, 3 / 10, ''Alpha''), (''B'', 8 / 10, 3 / 10, ''Beta''),
            (''C'', 8 / 10, 3 / 10, ''Gamma'')]"
  by code_simp

lemma ex_pipeline:
  "init exact_platform ex_nodes ex_edges = Inr ex_builder"
  "assign_stacked_positions ex_builder = Inr ex_positions"
  "build_networkx_graph ex_builder ex_positions = Inr ex_graph"
proof -
  show "init exact_platform ex_nodes ex_edges = Inr ex_builder"
    by (simp add: init_def ex_dimensions py_bind_Inr ex_builder_def)
  show "assign_stacked_positions ex_builder = Inr ex_positions"
    by code_simp
  show "build_networkx_graph ex_builder ex_positions = Inr ex_graph"
    by code_simp
qed

subsection \<open>Directional edges\<close>

lemma in_edges_target: "(u, v, d) \<in> set (in_edges G n) \<Longrightarrow> v = n"
  by (auto simp: in_edges_def)

lemma out_edges_source: "(u, v, d) \<in> set (out_edges G n) \<Longrightarrow> u = n"
  by (auto simp: out_edges_def)

text \<open>
  Claim C5: for a node \<open>S\<close> of the graph, with the direction set \<open>{upstream}\<close> every edge that
  \<open>_get_directional_edges\<close> returns has target \<open>S\<close>, and with \<open>{downstream}\<close> every returned
  edge has source \<open>S\<close>.
\<close>

theorem directional_edges_direction:
  "S \<in> set (node_ids G) \<Longrightarrow>
     (set directions = {''upstream''}
        \<longrightarrow> (\<forall>(u, v, d) \<in> set (get_directional_edges G S directions). v = S))
     \<and> (set directions = {''downstream''}
        \<longrightarrow> (\<forall>(u, v, d) \<in> set (get_directional_edges G S directions). u = S))"
proof (intro conjI impI)
  assume s: "set directions = {''upstream''}"
  have "''upstream'' \<in> set directions" and "''downstream'' \<notin> set directions"
    unfolding s by simp_all
  then have "get_directional_edges G S directions = in_edges G S"
    by (simp add: get_directional_edges_def)
  then show "\<forall>(u, v, d) \<in> set (get_directional_edges G S directions). v = S"
    using in_edges_target[of _ _ _ G S] by fastforce
next
  assume s: "set directions = {''downstream''}"
  have "''downstream'' \<in> set directions" and "''upstream'' \<notin> set directions"
    unfolding s by simp_all
  then have "get_directional_edges G S directions = out_edges G S"
    by (simp add: get_directional_edges_def)
  then show "\<forall>(u, v, d) \<in> set (get_directional_edges G S directions). u = S"
    using out_edges_source[of _ _ _ G S] by fastforce
qed

theorem directional_edges_direction_witness:
  "''B'' \<in> set (node_ids ex_graph)
     \<and> get_directional_edges ex_graph ''B'' [''upstream'']
         = [(''A'', ''B'', \<lparr>weight = 1, tier = 1, description = ''feeds''\<rparr>)]
     \<and> list_all (\<lambda>(u, v, d). v = ''B'') (get_directional_edges ex_graph ''B'' [''upstream''])
     \<and> ''A'' \<in> set (node_ids ex_graph)
     \<and> get_directional_edges ex_graph ''A'' [''downstream'']
         = [(''A'', ''B'', \<lparr>weight = 1, tier = 1, description = ''feeds''\<rparr>)]
     \<and> list_all (\<lambda>(u, v, d). u = ''A'') (get_directional_edges ex_graph ''A'' [''downstream''])"
proof -
  have b: "''B'' \<in> set (node_ids ex_graph)" and a: "''A'' \<in> set (node_ids ex_graph)"
    by code_simp+
  have up: "set [''upstream''] = {''upstream''}"
    and down: "set [''downstream''] = {''downstream''}" by simp_all
  have e1: "get_directional_edges ex_graph ''B'' [''upstream'']
              = [(''A'', ''B'', \<lparr>weight = 1, tier = 1, description = ''feeds''\<rparr>)]"
    by code_simp
  have e2: "get_directional_edges ex_graph ''A'' [''downstream'']
              = [(''A'', ''B'', \<lparr>weight = 1, tier = 1, description = ''feeds''\<rparr>)]"
    by code_simp
  have l1: "list_all (\<lambda>(u, v, d). v = ''B'') (get_directional_edges ex_graph ''B'' [''upstream''])"
    unfolding list_all_iff
    by (rule directional_edges_direction[OF b, THEN conjunct1, THEN mp, OF up])
  have l2: "list_all (\<lambda>(u, v, d). u = ''A'') (get_directional_edges ex_graph ''A'' [''downstream''])"
    unfolding list_all_iff
    by (rule directional_edges_direction[OF a, THEN conjunct2, THEN mp, OF down])
  from b e1 l1 a e2 l2 show ?thesis by (intro conjI)
qed

subsection \<open>Edge traces\<close>

lemma create_edge_traces_style:
  "create_edge_traces self G ps es vis mode = Inr ts \<Longrightarrow>
     map (\<lambda>t. (tr_opacity t, tr_width t)) ts = map (\<lambda>(u, v, d). (6 / 10, 3 * weight d)) es"
proof (induction es arbitrary: ts)
  case Nil
  then show ?case by simp
next
  case (Cons e es)
  obtain u v d where e: "e = (u, v, d)" by (cases e) auto
  from Cons.prems obtain t ts' where
    rest: "create_edge_traces self G ps es vis mode = Inr ts'"
    and ts: "ts = t # ts'"
    and t: "tr_opacity t = 6 / 10" "tr_width t = 3 * weight d"
    unfolding e by (auto simp: py_bind_Inr_iff Let_def)
  from Cons.IH[OF rest] ts t e show ?case by simp
qed

lemma style_nodes_ids:
  "style_nodes ns selected hovered dim_nodes = Inr ns' \<Longrightarrow> map fst ns' = map fst ns"
proof (induction ns selected hovered dim_nodes arbitrary: ns' rule: style_nodes.induct)
  case (1 selected hovered dim_nodes)
  then show ?case by simp
next
  case (2 node rest selected hovered dim_nodes)
  then show ?case by simp
next
  case (3 node a rest selected hovered dim_nodes)
  then show ?case by (auto simp: py_bind_Inr_iff Let_def)
qed

lemma apply_node_styles_structure:
  "apply_node_styles G selected hovered hl dm = Inr G' \<Longrightarrow>
     node_ids G' = node_ids G \<and> g_edges G' = g_edges G"
  by (auto simp: apply_node_styles_def py_bind_Inr_iff node_ids_def dest: style_nodes_ids)

text \<open>Visibility reads only the node identifiers and the edges of the graph.\<close>

lemma edges_cong:
  assumes "g_edges G' = g_edges G"
  shows "out_edges G' = out_edges G" and "in_edges G' = in_edges G"
  using assms by (auto simp: out_edges_def in_edges_def fun_eq_iff)

lemma determine_visible_elements_cong:
  assumes "node_ids G' = node_ids G" and "g_edges G' = g_edges G"
  shows "determine_visible_elements G' selected hovered directions mode
           = determine_visible_elements G selected hovered directions mode"
  unfolding determine_visible_elements_def get_directional_edges_def all_edges_def
    assms(1) edges_cong[OF assms(2)] ..

text \<open>What a successful \<open>build_figure\<close> went through.\<close>

lemma build_figure_Inr:
  assumes "build_figure self selected directions mode hovered now = Inr fig"
  shows "\<exists>positions G0 G edge_traces shapes anns marker.
    assign_stacked_positions self = Inr positions
    \<and> build_networkx_graph self positions = Inr G0
    \<and> apply_node_styles G0 selected hovered
         (fst (determine_interaction_state G0 selected hovered mode))
         (snd (snd (determine_interaction_state G0 selected hovered mode))) = Inr G
    \<and> (if snd (determine_visible_elements G selected hovered directions mode) \<noteq> []
        then create_edge_traces self G (get_pos G0)
               (snd (determine_visible_elements G selected hovered directions mode))
               (fst (determine_visible_elements G selected hovered directions mode)) mode
        else Inr []) = Inr edge_traces
    \<and> create_tier_backgrounds_raises G (get_pos G0) = Inr ()
    \<and> create_node_shapes_and_annotations G (get_pos G0)
         (fst (determine_visible_elements G selected hovered directions mode))
        = Inr (shapes, anns)
    \<and> create_x_group_annotations_raises self (get_pos G0) = Inr ()
    \<and> create_interactive_node_trace self G (get_pos G0) = Inr marker
    \<and> fig = \<lparr>fig_edge_traces = edge_traces, fig_interactive_trace = marker,
              fig_node_shapes = shapes, fig_node_annotations = anns,
              fig_datarevision = py_int_of_float (now * 1000)\<rparr>"
proof -
  from assms obtain positions where p: "assign_stacked_positions self = Inr positions"
    unfolding build_figure_def py_bind_Inr_iff by blast
  from assms p obtain G0 where g0: "build_networkx_graph self positions = Inr G0"
    unfolding build_figure_def by (simp add: py_bind_Inr) (auto simp: py_bind_Inr_iff)
  note a1 = assms[unfolded build_figure_def p py_bind_Inr g0 Let_def split_beta]
  from a1 obtain G where g: "apply_node_styles G0 selected hovered
       (fst (determine_interaction_state G0 selected hovered mode))
       (snd (snd (determine_interaction_state G0 selected hovered mode))) = Inr G"
    unfolding py_bind_Inr_iff by blast
  note a2 = a1[unfolded g py_bind_Inr]
  from a2 obtain edge_traces where
    e: "(if snd (determine_visible_elements G selected hovered directions mode) \<noteq> []
      then create_edge_traces self G (get_pos G0)
             (snd (determine_visible_elements G selected hovered directions mode))
             (fst (determine_visible_elements G selected hovered directions mode)) mode
      else Inr []) = Inr edge_traces"
    unfolding py_bind_Inr_iff by blast
  note a3 = a2[unfolded e py_bind_Inr]
  from a3 have t: "create_tier_backgrounds_raises G (get_pos G0) = Inr ()"
    unfolding py_bind_Inr_iff by auto
  note a4 = a3[unfolded t py_bind_Inr]
  from a4 obtain sn where s: "create_node_shapes_and_annotations G (get_pos G0)
       (fst (determine_visible_elements G selected hovered directions mode)) = Inr sn"
    unfolding py_bind_Inr_iff by blast
  note a5 = a4[unfolded s py_bind_Inr]
  from a5 have x: "create_x_group_annotations_raises self (get_pos G0) = Inr ()"
    unfolding py_bind_Inr_iff by auto
  note a6 = a5[unfolded x py_bind_Inr]
  from a6 obtain marker where m: "create_interactive_node_trace self G (get_pos G0) = Inr marker"
    unfolding py_bind_Inr_iff by blast
  note a7 = a6[unfolded m py_bind_Inr]
  from a7 have f: "fig = \<lparr>fig_edge_traces = edge_traces, fig_interactive_trace = marker,
            fig_node_shapes = fst sn, fig_node_annotations = snd sn,
            fig_datarevision = py_int_of_float (now * 1000)\<rparr>"
    by simp
  from s have s': "create_node_shapes_and_annotations G (get_pos G0)
       (fst (determine_visible_elements G selected hovered directions mode))
        = Inr (fst sn, snd sn)" by simp
  from p g0 g e t s' x m f show ?thesis by blast
qed

text \<open>
  Claim C10: every edge trace of the figure has opacity 0.6 and line width three times
  the weight of its edge, whatever the selection, the hovered node, the mode and the
  directions: the traces follow the visible edges one by one.
\<close>

theorem edge_trace_style:
  "assign_stacked_positions self = Inr positions \<Longrightarrow>
   build_networkx_graph self positions = Inr G \<Longrightarrow>
   build_figure self selected directions mode hovered now = Inr fig \<Longrightarrow>
     map (\<lambda>t. (tr_opacity t, tr_width t)) (fig_edge_traces fig)
       = map (\<lambda>(u, v, d). (6 / 10, 3 * weight d))
           (snd (determine_visible_elements G selected hovered directions mode))"
proof -
  assume p: "assign_stacked_positions self = Inr positions"
    and g: "build_networkx_graph self positions = Inr G"
    and f: "build_figure self selected directions mode hovered now = Inr fig"
  from build_figure_Inr[OF f] obtain positions' G0 G1 ts shapes anns marker where
    p': "assign_stacked_positions self = Inr positions'"
    and g0: "build_networkx_graph self positions' = Inr G0"
    and g1: "apply_node_styles G0 selected hovered
       (fst (determine_interaction_state G0 selected hovered mode))
       (snd (snd (determine_interaction_state G0 selected hovered mode))) = Inr G1"
    and ts: "(if snd (determine_visible_elements G1 selected hovered directions mode) \<noteq> []
      then create_edge_traces self G1 (get_pos G0)
             (snd (determine_visible_elements G1 selected hovered directions mode))
             (fst (determine_visible_elements G1 selected hovered directions mode)) mode
      else Inr []) = Inr ts"
    and fig: "fig = \<lparr>fig_edge_traces = ts, fig_interactive_trace = marker,
            fig_node_shapes = shapes, fig_node_annotations = anns,
            fig_datarevision = py_int_of_float (now * 1000)\<rparr>"
    by (elim exE conjE) (rule that; assumption)
  from p p' g g0 have G0: "G0 = G" by simp
  let ?ve = "snd (determine_visible_elements G1 selected hovered directions mode)"
  have "map (\<lambda>t. (tr_opacity t, tr_width t)) ts = map (\<lambda>(u, v, d). (6 / 10, 3 * weight d)) ?ve"
  proof (cases "?ve = []")
    case True
    with ts show ?thesis by simp
  next
    case False
    with ts have "create_edge_traces self G1 (get_pos G0) ?ve
                    (fst (determine_visible_elements G1 selected hovered directions mode)) mode
                    = Inr ts"
      by simp
    then show ?thesis by (rule create_edge_traces_style)
  qed
  moreover have "determine_visible_elements G1 selected hovered directions mode
                   = determine_visible_elements G selected hovered directions mode"
    using apply_node_styles_structure[OF g1] G0 by (intro determine_visible_elements_cong) simp_all
  ultimately show ?thesis using fig by simp
qed

text \<open>The figure of the example with \<open>A\<close> selected, downstream only, interactive mode
  and \<open>C\<close> hovered.\<close>

lemma ex_figure_interactive:
  "build_figure ex_builder (Some ''A'') [''downstream''] ''interactive'' (Some ''C'') 0
     = Inr \<lparr>fig_edge_traces =
              [\<lparr>tr_width = 3, tr_color = ''rgb(74,144,226)'', tr_opacity = 6 / 10,
                tr_text = ''<b>Alpha  '' @ arrow_text
                            @ ''  Beta</b><br>feeds<br>Dependency Type: <b>Optimizer</b>''\<rparr>],
            fig_interactive_trace =
              \<lparr>mk_x = [34 / 10, 68 / 10, 34 / 10], mk_y = [0, 0, 36 / 10],
               mk_text = [''Alpha'', ''Beta'', ''Gamma''],
               mk_customdata = [''A'', ''B'', ''C''], mk_size = [80, 80, 80]\<rparr>,
            fig_node_shapes =
              [\<lparr>sh_fillcolor = ''#f0f0f0'', sh_line_color = ''#000000'', sh_line_width = 4,
                sh_opacity = 1\<rparr>,
               \<lparr>sh_fillcolor = ''#f0f0f0'', sh_line_color = ''#333'', sh_line_width = 4,
                sh_opacity = 1\<rparr>,
               \<lparr>sh_fillcolor = ''#f0f0f0'', sh_line_color = ''#FFD700'', sh_line_width = 4,
                sh_opacity = 1\<rparr>],
            fig_node_annotations =
              [\<lparr>an_x = 34 / 10, an_y = 0, an_text = ''Alpha'', an_opacity = 1\<rparr>,
               \<lparr>an_x = 68 / 10, an_y = 0, an_text = ''Beta'', an_opacity = 1\<rparr>,
               \<lparr>an_x = 34 / 10, an_y = 36 / 10, an_text = ''Gamma'', an_opacity = 1\<rparr>],
            fig_datarevision = 0\<rparr>"
  by code_simp

theorem edge_trace_style_witness:
  "assign_stacked_positions ex_builder = Inr ex_positions
     \<and> build_networkx_graph ex_builder ex_positions = Inr ex_graph
     \<and> snd (determine_visible_elements ex_graph (Some ''A'') (Some ''C'') [''downstream'']
               ''interactive'')
         = [(''A'', ''B'', \<lparr>weight = 1, tier = 1, description = ''feeds''\<rparr>)]
     \<and> map (\<lambda>t. (tr_opacity t, tr_width t))
         (fig_edge_traces
            (projr (build_figure ex_builder (Some ''A'') [''downstream''] ''interactive''
                      (Some ''C'') 0)))
       = [(6 / 10, 3)]"
proof -
  let ?run = "build_figure ex_builder (Some ''A'') [''downstream''] ''interactive'' (Some ''C'') 0"
  have v: "snd (determine_visible_elements ex_graph (Some ''A'') (Some ''C'') [''downstream'']
                  ''interactive'')
             = [(''A'', ''B'', \<lparr>weight = 1, tier = 1, description = ''feeds''\<rparr>)]"
    by code_simp
  have f: "?run = Inr (projr ?run)"
    by (simp only: ex_figure_interactive sum.sel)
  have "map (\<lambda>t. (tr_opacity t, tr_width t)) (fig_edge_traces (projr ?run))
          = map (\<lambda>(u, v, d). (6 / 10, 3 * weight d))
              (snd (determine_visible_elements ex_graph (Some ''A'') (Some ''C'')
                      [''downstream''] ''interactive''))"
    by (rule edge_trace_style[OF ex_pipeline(2) ex_pipeline(3) f])
  also have "\<dots> = [(6 / 10, 3)]"
    unfolding v by simp
  finally have t: "map (\<lambda>t. (tr_opacity t, tr_width t)) (fig_edge_traces (projr ?run))
                     = [(6 / 10, 3)]" .
  from ex_pipeline(2) ex_pipeline(3) v t show ?thesis by (intro conjI)
qed

subsection \<open>Dimming\<close>

lemma style_of_opacity:
  "st_opacity (style_of node b selected hovered dim_nodes) = (if node \<in> dim_nodes then 2 / 10 else 1)"
  by (auto simp: style_of_def Let_def)

lemma style_nodes_opacity:
  "style_nodes ns selected hovered dim_nodes = Inr ns' \<Longrightarrow> (n, Some a) \<in> set ns' \<Longrightarrow>
     opacity a = Some (if n \<in> dim_nodes then 2 / 10 else 1)"
proof (induction ns selected hovered dim_nodes arbitrary: ns' rule: style_nodes.induct)
  case (1 selected hovered dim_nodes)
  then show ?case by simp
next
  case (2 node rest selected hovered dim_nodes)
  then show ?case by simp
next
  case (3 node b rest selected hovered dim_nodes)
  from "3.prems"(1) obtain rest1 where
    r: "style_nodes rest selected hovered dim_nodes = Inr rest1"
    and ns': "ns' = (node, Some (b\<lparr>glow := Some (st_glow (style_of node (original_border b) selected hovered dim_nodes)),
                 opacity := Some (st_opacity (style_of node (original_border b) selected hovered dim_nodes)),
                 border := st_border (style_of node (original_border b) selected hovered dim_nodes)\<rparr>)) # rest1"
    by (auto simp: py_bind_Inr_iff Let_def)
  from "3.prems"(2) ns' consider (hd) "n = node"
      "a = b\<lparr>glow := Some (st_glow (style_of node (original_border b) selected hovered dim_nodes)),
                 opacity := Some (st_opacity (style_of node (original_border b) selected hovered dim_nodes)),
                 border := st_border (style_of node (original_border b) selected hovered dim_nodes)\<rparr>"
    | (tl) "(n, Some a) \<in> set rest1" by auto
  then show ?case
  proof cases
    case hd
    then show ?thesis by (simp add: style_of_opacity)
  next
    case tl
    with "3.IH"[OF refl r] show ?thesis by simp
  qed
qed

text \<open>
  Claim C4, as stated: the dim set is empty unless the mode is interactive and a selection
  is present, so that no node is both dimmed and invisible. In filter mode with \<open>A\<close>
  selected, the untouched domain \<open>C\<close> of the example is outside the visible set, in the dim
  set, and drawn with opacity 0.2.
\<close>

theorem dim_in_filter_mode_counterexample:
  "determine_interaction_state ex_graph (Some ''A'') None ''filter'' = ({''A''}, {''B''}, {''C''})
     \<and> fst (determine_visible_elements ex_graph (Some ''A'') None [''upstream'', ''downstream'']
               ''filter'') = {''A'', ''B''}
     \<and> \<not> isl (build_figure ex_builder (Some ''A'') [''upstream'', ''downstream''] ''filter'' None 0)
     \<and> map sh_opacity
           (fig_node_shapes
              (projr (build_figure ex_builder (Some ''A'') [''upstream'', ''downstream'']
                        ''filter'' None 0)))
         = [1, 1, 2 / 10]"
  by code_simp

text \<open>
  Claim C4, amended: the dim set is empty whenever no selection is present (the selection
  is null, or is \<open>All\<close> in filter mode); with a selection \<open>S\<close> (non-empty, not \<open>All\<close>), in
  filter mode as in interactive mode, the dim set is every node that is neither highlighted
  nor secondary; and the nodes of the dim set, and only they, get style opacity 0.2.
  So a node that the filter leaves out of the visible set can be dimmed as well.
\<close>

theorem dim_nodes_by_selection:
  "(selected = None \<or> (mode = ''filter'' \<and> selected = Some ''All'')
      \<longrightarrow> snd (snd (determine_interaction_state G selected hovered mode)) = {})
   \<and> ((mode = ''filter'' \<or> mode = ''interactive'') \<and> selected = Some S \<and> S \<noteq> [] \<and> S \<noteq> ''All''
      \<longrightarrow> snd (snd (determine_interaction_state G selected hovered mode))
            = set (node_ids G) - fst (determine_interaction_state G selected hovered mode)
                - fst (snd (determine_interaction_state G selected hovered mode)))
   \<and> (apply_node_styles G selected hovered hl dm = Inr G' \<and> (n, Some a) \<in> set (g_nodes G')
      \<longrightarrow> opacity a = Some (if n \<in> dm then 2 / 10 else 1))"
proof (intro conjI impI)
  assume "selected = None \<or> mode = ''filter'' \<and> selected = Some ''All''"
  then show "snd (snd (determine_interaction_state G selected hovered mode)) = {}"
    by (auto simp: determine_interaction_state_def Let_def truthy_def split: prod.splits)
next
  assume "(mode = ''filter'' \<or> mode = ''interactive'') \<and> selected = Some S \<and> S \<noteq> [] \<and> S \<noteq> ''All''"
  then have m: "mode = ''filter'' \<or> mode = ''interactive''" and s: "selected = Some S"
    and t: "truthy selected" and na: "selected \<noteq> Some ''All''" "selected \<noteq> None"
    by (auto simp: truthy_def)
  from m show "snd (snd (determine_interaction_state G selected hovered mode))
            = set (node_ids G) - fst (determine_interaction_state G selected hovered mode)
                - fst (snd (determine_interaction_state G selected hovered mode))"
    using t na by (auto simp: determine_interaction_state_def Let_def split: prod.splits)
next
  assume "apply_node_styles G selected hovered hl dm = Inr G' \<and> (n, Some a) \<in> set (g_nodes G')"
  then obtain ns where "style_nodes (g_nodes G) selected (reset_hover hovered) dm = Inr ns"
    and "(n, Some a) \<in> set ns"
    by (auto simp: apply_node_styles_def py_bind_Inr_iff)
  then show "opacity a = Some (if n \<in> dm then 2 / 10 else 1)"
    by (rule style_nodes_opacity)
qed

theorem dim_nodes_by_selection_witness:
  "snd (snd (determine_interaction_state ex_graph None (Some ''C'') ''interactive'')) = {}
     \<and> determine_interaction_state ex_graph (Some ''A'') None ''interactive''
         = ({''A''}, {''B''}, {''C''})
     \<and> snd (snd (determine_interaction_state ex_graph (Some ''A'') None ''interactive''))
         = set (node_ids ex_graph) - {''A''} - {''B''}"
proof -
  have d: "determine_interaction_state ex_graph (Some ''A'') None ''interactive''
             = ({''A''}, {''B''}, {''C''})"
    by code_simp
  have h: "(''interactive'' = ''filter'' \<or> ''interactive'' = ''interactive'')
             \<and> Some ''A'' = Some ''A'' \<and> ''A'' \<noteq> [] \<and> ''A'' \<noteq> ''All''"
    by simp
  have "snd (snd (determine_interaction_state ex_graph None (Some ''C'') ''interactive'')) = {}"
    by (rule dim_nodes_by_selection[THEN conjunct1, THEN mp]) simp
  moreover have "snd (snd (determine_interaction_state ex_graph (Some ''A'') None ''interactive''))
         = set (node_ids ex_graph) - fst (determine_interaction_state ex_graph (Some ''A'') None ''interactive'')
             - fst (snd (determine_interaction_state ex_graph (Some ''A'') None ''interactive''))"
    by (rule dim_nodes_by_selection[THEN conjunct2, THEN conjunct1, THEN mp, OF h])
  ultimately show ?thesis using d by simp
qed

subsection \<open>Filter mode\<close>

lemma node_shapes_loop_length:
  "node_shapes_loop G ps vis ns = Inr (shapes, anns) \<Longrightarrow>
     length shapes = length ns \<and> length anns = length ns"
proof (induction ns arbitrary: shapes anns)
  case Nil
  then show ?case by simp
next
  case (Cons n ns)
  from Cons.prems obtain s a shapes' anns' where
    r: "node_shapes_loop G ps vis ns = Inr (shapes', anns')"
    and e: "shapes = s # shapes'" "anns = a # anns'"
    by (auto simp: py_bind_Inr_iff Let_def split: prod.splits)
  from Cons.IH[OF r] e show ?case by simp
qed

text \<open>The set of visible nodes never reaches the shapes.\<close>

lemma node_shapes_loop_visible:
  "node_shapes_loop G ps vis ns = node_shapes_loop G ps vis' ns"
  by (induction ns) simp_all

lemma create_edge_traces_length:
  assumes "create_edge_traces self G ps es vis mode = Inr ts"
  shows "length ts = length es"
proof -
  have "length (map (\<lambda>t. (tr_opacity t, tr_width t)) ts)
          = length (map (\<lambda>(u, v, d). (6 / 10 :: real, 3 * weight d)) es)"
    by (simp only: create_edge_traces_style[OF assms])
  then show ?thesis by simp
qed

lemma visible_filter_selected:
  assumes "S \<in> set (node_ids G)" and "S \<noteq> []" and "S \<noteq> ''All''"
  shows "determine_visible_elements G (Some S) hovered directions ''filter''
           = (insert S (set (map (\<lambda>(u, v, d). u) (get_directional_edges G S directions))
                          \<union> set (map (\<lambda>(u, v, d). v) (get_directional_edges G S directions))),
              get_directional_edges G S directions)"
  using assms by (simp add: determine_visible_elements_def truthy_def Let_def)

lemma set_in_edges: "set (in_edges G n) = {(u, v, d). ((u, v), d) \<in> set (g_edges G) \<and> v = n}"
  unfolding in_edges_def by force

lemma set_out_edges: "set (out_edges G n) = {(u, v, d). ((u, v), d) \<in> set (g_edges G) \<and> u = n}"
  unfolding out_edges_def by force

lemma set_directional_edges:
  "set (get_directional_edges G S directions)
     = {(u, v, d). ((u, v), d) \<in> set (g_edges G)
          \<and> ((''upstream'' \<in> set directions \<and> v = S) \<or> (''downstream'' \<in> set directions \<and> u = S))}"
  unfolding get_directional_edges_def set_append
  by (auto simp: set_in_edges set_out_edges)

text \<open>
  Claim C3, as stated: in filter mode every node outside the visible set is hidden from
  the scene, with no shape and no label emitted for it. With \<open>A\<close> selected and the
  direction downstream, the visible set of the example is \<open>{A, B}\<close>, yet the figure has
  three shapes and the label of \<open>C\<close>.
\<close>

theorem filter_hides_nodes_counterexample:
  "fst (determine_visible_elements ex_graph (Some ''A'') None [''downstream''] ''filter'')
       = {''A'', ''B''}
     \<and> \<not> isl (build_figure ex_builder (Some ''A'') [''downstream''] ''filter'' None 0)
     \<and> length (fig_node_shapes
                 (projr (build_figure ex_builder (Some ''A'') [''downstream''] ''filter'' None 0)))
         = 3
     \<and> map an_text
           (fig_node_annotations
              (projr (build_figure ex_builder (Some ''A'') [''downstream''] ''filter'' None 0)))
         = [''Alpha'', ''Beta'', ''Gamma'']"
  by code_simp

text \<open>
  Claim C3, amended: in filter mode with a selection \<open>S\<close> present in the graph (non-empty
  and not \<open>All\<close>), the visible nodes are exactly \<open>S\<close> and the nodes one hop from \<open>S\<close> in the
  allowed directions, the visible edges are exactly the edges in those directions incident
  to \<open>S\<close>, and the figure has one edge trace per visible edge; a shape and a label are
  emitted for every node of the graph, visible or not.
\<close>

theorem filter_mode_visibility:
  assumes "S \<in> set (node_ids G)" and "S \<noteq> []" and "S \<noteq> ''All''"
  shows
    "fst (determine_visible_elements G (Some S) hovered directions ''filter'')
       = {S} \<union> {u. ''upstream'' \<in> set directions \<and> (\<exists>d. ((u, S), d) \<in> set (g_edges G))}
             \<union> {v. ''downstream'' \<in> set directions \<and> (\<exists>d. ((S, v), d) \<in> set (g_edges G))}
     \<and> set (snd (determine_visible_elements G (Some S) hovered directions ''filter''))
       = {(u, v, d). ((u, v), d) \<in> set (g_edges G)
            \<and> ((''upstream'' \<in> set directions \<and> v = S) \<or> (''downstream'' \<in> set directions \<and> u = S))}
     \<and> (assign_stacked_positions self = Inr positions
          \<and> build_networkx_graph self positions = Inr G
          \<and> build_figure self (Some S) directions ''filter'' hovered now = Inr fig
        \<longrightarrow> length (fig_edge_traces fig)
              = length (snd (determine_visible_elements G (Some S) hovered directions ''filter''))
            \<and> length (fig_node_shapes fig) = length (node_ids G)
            \<and> length (fig_node_annotations fig) = length (node_ids G))"
proof (intro conjI impI)
  note v = visible_filter_selected[OF assms, of hovered directions]
  show "fst (determine_visible_elements G (Some S) hovered directions ''filter'')
       = {S} \<union> {u. ''upstream'' \<in> set directions \<and> (\<exists>d. ((u, S), d) \<in> set (g_edges G))}
             \<union> {v. ''downstream'' \<in> set directions \<and> (\<exists>d. ((S, v), d) \<in> set (g_edges G))}"
    unfolding v fst_conv set_map set_directional_edges by force
  show "set (snd (determine_visible_elements G (Some S) hovered directions ''filter''))
       = {(u, v, d). ((u, v), d) \<in> set (g_edges G)
            \<and> ((''upstream'' \<in> set directions \<and> v = S) \<or> (''downstream'' \<in> set directions \<and> u = S))}"
    unfolding v snd_conv by (rule set_directional_edges)
next
  assume a: "assign_stacked_positions self = Inr positions
          \<and> build_networkx_graph self positions = Inr G
          \<and> build_figure self (Some S) directions ''filter'' hovered now = Inr fig"
  then have f: "build_figure self (Some S) directions ''filter'' hovered now = Inr fig" by simp
  from build_figure_Inr[OF f] obtain positions' G0 G1 ts shapes anns marker where
    p': "assign_stacked_positions self = Inr positions'"
    and g0: "build_networkx_graph self positions' = Inr G0"
    and g1: "apply_node_styles G0 (Some S) hovered
       (fst (determine_interaction_state G0 (Some S) hovered ''filter''))
       (snd (snd (determine_interaction_state G0 (Some S) hovered ''filter''))) = Inr G1"
    and ts: "(if snd (determine_visible_elements G1 (Some S) hovered directions ''filter'') \<noteq> []
      then create_edge_traces self G1 (get_pos G0)
             (snd (determine_visible_elements G1 (Some S) hovered directions ''filter''))
             (fst (determine_visible_elements G1 (Some S) hovered directions ''filter'')) ''filter''
      else Inr []) = Inr ts"
    and sh: "create_node_shapes_and_annotations G1 (get_pos G0)
         (fst (determine_visible_elements G1 (Some S) hovered directions ''filter''))
        = Inr (shapes, anns)"
    and fig: "fig = \<lparr>fig_edge_traces = ts, fig_interactive_trace = marker,
            fig_node_shapes = shapes, fig_node_annotations = anns,
            fig_datarevision = py_int_of_float (now * 1000)\<rparr>"
    by (elim exE conjE) (rule that; assumption)
  from a p' g0 have G0: "G0 = G" by simp
  note st = apply_node_styles_structure[OF g1, unfolded G0]
  have ve: "determine_visible_elements G1 (Some S) hovered directions ''filter''
              = determine_visible_elements G (Some S) hovered directions ''filter''"
    using st by (intro determine_visible_elements_cong) simp_all
  let ?ve = "snd (determine_visible_elements G (Some S) hovered directions ''filter'')"
  have "length ts = length ?ve"
  proof (cases "?ve = []")
    case True
    with ts ve show ?thesis by simp
  next
    case False
    with ts ve have "create_edge_traces self G1 (get_pos G0) ?ve
                    (fst (determine_visible_elements G (Some S) hovered directions ''filter''))
                    ''filter'' = Inr ts"
      by simp
    then show ?thesis by (rule create_edge_traces_length)
  qed
  then show "length (fig_edge_traces fig)
              = length (snd (determine_visible_elements G (Some S) hovered directions ''filter''))"
    using fig by simp
  from sh have "length shapes = length (node_ids G1) \<and> length anns = length (node_ids G1)"
    unfolding create_node_shapes_and_annotations_def by (rule node_shapes_loop_length)
  with st fig show "length (fig_node_shapes fig) = length (node_ids G)"
    and "length (fig_node_annotations fig) = length (node_ids G)" by simp_all
qed

lemma ex_figure_filter:
  "build_figure ex_builder (Some ''A'') [''downstream''] ''filter'' None 0
     = Inr \<lparr>fig_edge_traces =
              [\<lparr>tr_width = 3, tr_color = ''rgb(74,144,226)'', tr_opacity = 6 / 10,
                tr_text = ''<b>Alpha  '' @ arrow_text
                            @ ''  Beta</b><br>feeds<br>Dependency Type: <b>Optimizer</b>''\<rparr>],
            fig_interactive_trace =
              \<lparr>mk_x = [34 / 10, 68 / 10, 34 / 10], mk_y = [0, 0, 36 / 10],
               mk_text = [''Alpha'', ''Beta'', ''Gamma''],
               mk_customdata = [''A'', ''B'', ''C''], mk_size = [80, 80, 80]\<rparr>,
            fig_node_shapes =
              [\<lparr>sh_fillcolor = ''#f0f0f0'', sh_line_color = ''#000000'', sh_line_width = 4,
                sh_opacity = 1\<rparr>,
               \<lparr>sh_fillcolor = ''#f0f0f0'', sh_line_color = ''#333'', sh_line_width = 4,
                sh_opacity = 1\<rparr>,
               \<lparr>sh_fillcolor = ''#f0f0f0'', sh_line_color = ''#333'', sh_line_width = 4,
                sh_opacity = 2 / 10\<rparr>],
            fig_node_annotations =
              [\<lparr>an_x = 34 / 10, an_y = 0, an_text = ''Alpha'', an_opacity = 1\<rparr>,
               \<lparr>an_x = 68 / 10, an_y = 0, an_text = ''Beta'', an_opacity = 1\<rparr>,
               \<lparr>an_x = 34 / 10, an_y = 36 / 10, an_text = ''Gamma'', an_opacity = 2 / 10\<rparr>],
            fig_datarevision = 0\<rparr>"
  by code_simp

theorem filter_mode_visibility_witness:
  "''A'' \<in> set (node_ids ex_graph)
     \<and> determine_visible_elements ex_graph (Some ''A'') None [''downstream''] ''filter''
         = ({''A'', ''B''}, [(''A'', ''B'', \<lparr>weight = 1, tier = 1, description = ''feeds''\<rparr>)])
     \<and> \<not> isl (build_figure ex_builder (Some ''A'') [''downstream''] ''filter'' None 0)
     \<and> length (fig_edge_traces
                 (projr (build_figure ex_builder (Some ''A'') [''downstream''] ''filter'' None 0)))
         = length (snd (determine_visible_elements ex_graph (Some ''A'') None [''downstream'']
                          ''filter''))
     \<and> length (fig_node_shapes
                 (projr (build_figure ex_builder (Some ''A'') [''downstream''] ''filter'' None 0)))
         = length (node_ids ex_graph)"
proof -
  let ?run = "build_figure ex_builder (Some ''A'') [''downstream''] ''filter'' None 0"
  have a: "''A'' \<in> set (node_ids ex_graph)" by code_simp
  have n1: "''A'' \<noteq> []" and n2: "''A'' \<noteq> ''All''" by simp_all
  have v: "determine_visible_elements ex_graph (Some ''A'') None [''downstream''] ''filter''
         = ({''A'', ''B''}, [(''A'', ''B'', \<lparr>weight = 1, tier = 1, description = ''feeds''\<rparr>)])"
    by code_simp
  have f: "?run = Inr (projr ?run)" by (simp only: ex_figure_filter sum.sel)
  have i: "\<not> isl ?run" by (simp only: ex_figure_filter sum.disc not_False_eq_True)
  note t = filter_mode_visibility[OF a n1 n2, where hovered = None
             and directions = "[''downstream'']" and self = ex_builder
             and positions = ex_positions and fig = "projr ?run" and now = 0,
             THEN conjunct2, THEN conjunct2, THEN mp,
             OF conjI[OF ex_pipeline(2) conjI[OF ex_pipeline(3) f]]]
  from a v i t[THEN conjunct1] t[THEN conjunct2, THEN conjunct1] show ?thesis by (intro conjI)
qed

subsection \<open>Maturity levels without a tier band\<close>

text \<open>
  Claim C1: for every valid model, with maturities among 1.0, 1.5, 2.0, 3.0 and 4.0,
  \<open>build_figure\<close> produces a scene and position assignment gives every domain a position.
  \<open>_assign_stacked_positions\<close> places only the tiers 1.0, 1.5 and 2.0 of
  \<open>TIER_BAND_COLORS\<close>, while \<open>_build_networkx_graph\<close> reads \<open>positions[row["DOMAIN_ID"]]\<close> for
  every row: a domain of maturity 3.0 gets no position and the build raises \<open>KeyError\<close>
  (evaluated on the exact platform; 3.0 is far from each of the three tiers).
\<close>

theorem build_figure_level3_raises:
  "init exact_platform ex_nodes_level3 [] = Inr ex_builder_level3
     \<and> assign_stacked_positions ex_builder_level3 = Inr [(''A'', 34 / 10, 0)]
     \<and> build_networkx_graph ex_builder_level3 [(''A'', 34 / 10, 0)] = Inl KeyError
     \<and> build_figure ex_builder_level3 None [''upstream'', ''downstream''] ''filter'' None 0
         = Inl KeyError"
proof -
  have "precalculate_node_dimensions exact_platform ex_nodes_level3
          = Inr [(''A'', 8 / 10, 3 / 10, ''Alpha''), (''D'', 8 / 10, 3 / 10, ''Delta'')]"
    by code_simp
  then have "init exact_platform ex_nodes_level3 [] = Inr ex_builder_level3"
    by (simp add: init_def py_bind_Inr ex_builder_level3_def)
  moreover have "assign_stacked_positions ex_builder_level3 = Inr [(''A'', 34 / 10, 0)]"
    by code_simp
  moreover have "build_networkx_graph ex_builder_level3 [(''A'', 34 / 10, 0)] = Inl KeyError"
    by code_simp
  moreover have "build_figure ex_builder_level3 None [''upstream'', ''downstream''] ''filter''
                   None 0 = Inl KeyError"
    by code_simp
  ultimately show ?thesis by (intro conjI)
qed

subsection \<open>The selection \<open>All\<close>\<close>





subsection \<open>Collision check and retry\<close>

lemma collides_with_used_iff:
  "collides_with_used self
     (f_add (the_platform self) y (f_div (the_platform self) h 2))
     (f_sub (the_platform self) y (f_div (the_platform self) h 2)) cur used
     \<longleftrightarrow> (\<exists>((g, ey), eh) \<in> set used. g = cur \<and> extents_overlap self y h ey eh)"
proof (induction used)
  case Nil
  then show ?case by simp
next
  case (Cons e used)
  obtain g ey eh where e: "e = ((g, ey), eh)" by (cases e) auto
  have step: "collides_with_used self
                (f_add (the_platform self) y (f_div (the_platform self) h 2))
                (f_sub (the_platform self) y (f_div (the_platform self) h 2)) cur
                (((g, ey), eh) # used)
                \<longleftrightarrow> (g = cur \<and> extents_overlap self y h ey eh)
                    \<or> collides_with_used self
                         (f_add (the_platform self) y (f_div (the_platform self) h 2))
                         (f_sub (the_platform self) y (f_div (the_platform self) h 2)) cur used"
    unfolding collides_with_used.simps Let_def extents_overlap_def by auto
  show ?case unfolding e step Cons.IH by simp
qed

lemma has_intelligent_collisions_iff:
  "has_intelligent_collisions self ys hs used cur
     \<longleftrightarrow> (\<exists>(y, h) \<in> set (zip ys hs). \<exists>((g, ey), eh) \<in> set used.
            g = cur \<and> extents_overlap self y h ey eh)"
proof (induction self ys hs used cur rule: has_intelligent_collisions.induct)
  case (1 self y ys h hs used cur)
  then show ?case using collides_with_used_iff[of self y h cur used]
    by (simp add: Let_def)
qed simp_all

text \<open>The loop returns the grid of the first attempt that does not collide.\<close>

lemma find_y_grid_first:
  assumes "k < n"
    and "\<And>j. j < k \<Longrightarrow> has_intelligent_collisions self
            (map (\<lambda>offset. f_add (the_platform self) off offset)
               (calculate_y_grid self count
                  (((\<lambda>s. f_mul (the_platform self) s (f_lit (the_platform self) (108 / 100))) ^^ j)
                     sp)))
            hs used cur"
    and "\<not> has_intelligent_collisions self
            (map (\<lambda>offset. f_add (the_platform self) off offset)
               (calculate_y_grid self count
                  (((\<lambda>s. f_mul (the_platform self) s (f_lit (the_platform self) (108 / 100))) ^^ k)
                     sp)))
            hs used cur"
  shows "snd (find_y_grid self n sp g count off hs used cur)
           = calculate_y_grid self count
               (((\<lambda>s. f_mul (the_platform self) s (f_lit (the_platform self) (108 / 100))) ^^ k)
                  sp)"
  using assms
proof (induction n arbitrary: sp g k)
  case 0
  then show ?case by simp
next
  case (Suc n)
  let ?step = "\<lambda>s. f_mul (the_platform self) s (f_lit (the_platform self) (108 / 100))"
  show ?case
  proof (cases k)
    case 0
    with Suc.prems(3) show ?thesis by (simp add: Let_def)
  next
    case (Suc k')
    from Suc.prems(2)[of 0] Suc have c0: "has_intelligent_collisions self
            (map (\<lambda>offset. f_add (the_platform self) off offset) (calculate_y_grid self count sp))
            hs used cur"
      by simp
    have shift: "\<And>j. (?step ^^ j) (?step sp) = (?step ^^ Suc j) sp"
      by (simp only: funpow_Suc_right o_apply)
    have "snd (find_y_grid self n (?step sp) (calculate_y_grid self count sp) count off hs used cur)
            = calculate_y_grid self count ((?step ^^ k') (?step sp))"
    proof (rule Suc.IH)
      from Suc.prems(1) Suc show "k' < n" by simp
    next
      fix j assume "j < k'"
      then have "Suc j < k" using Suc by simp
      from Suc.prems(2)[OF this] show "has_intelligent_collisions self
            (map (\<lambda>offset. f_add (the_platform self) off offset)
               (calculate_y_grid self count ((?step ^^ j) (?step sp)))) hs used cur"
        unfolding shift .
    next
      from Suc.prems(3) Suc show "\<not> has_intelligent_collisions self
            (map (\<lambda>offset. f_add (the_platform self) off offset)
               (calculate_y_grid self count ((?step ^^ k') (?step sp)))) hs used cur"
        unfolding shift by simp
    qed
    then have "snd (find_y_grid self n (?step sp) (calculate_y_grid self count sp) count off hs
                      used cur)
                 = calculate_y_grid self count ((?step ^^ k) sp)"
      unfolding shift Suc .
    moreover have "find_y_grid self (Suc n) sp g count off hs used cur
                     = find_y_grid self n (?step sp) (calculate_y_grid self count sp) count off hs
                         used cur"
      using c0 by (simp add: Let_def)
    ultimately show ?thesis by simp
  qed
qed

text \<open>When every attempt collides, the loop ends with the grid of the last one.\<close>

lemma find_y_grid_exhausted:
  assumes "\<And>j. j < n \<Longrightarrow> has_intelligent_collisions self
            (map (\<lambda>offset. f_add (the_platform self) off offset)
               (calculate_y_grid self count
                  (((\<lambda>s. f_mul (the_platform self) s (f_lit (the_platform self) (108 / 100))) ^^ j)
                     sp)))
            hs used cur"
  shows "snd (find_y_grid self n sp g count off hs used cur)
           = (if n = 0 then g
              else calculate_y_grid self count
                     (((\<lambda>s. f_mul (the_platform self) s (f_lit (the_platform self) (108 / 100)))
                         ^^ (n - 1)) sp))"
  using assms
proof (induction n arbitrary: sp g)
  case 0
  then show ?case by simp
next
  case (Suc n)
  let ?step = "\<lambda>s. f_mul (the_platform self) s (f_lit (the_platform self) (108 / 100))"
  from Suc.prems[of 0] have c0: "has_intelligent_collisions self
            (map (\<lambda>offset. f_add (the_platform self) off offset) (calculate_y_grid self count sp))
            hs used cur"
    by simp
  have shift: "\<And>j. (?step ^^ j) (?step sp) = (?step ^^ Suc j) sp"
    by (simp only: funpow_Suc_right o_apply)
  have ih: "snd (find_y_grid self n (?step sp) (calculate_y_grid self count sp) count off hs used
                   cur)
          = (if n = 0 then calculate_y_grid self count sp
             else calculate_y_grid self count ((?step ^^ (n - 1)) (?step sp)))"
  proof (rule Suc.IH)
    fix j assume "j < n"
    then have "Suc j < Suc n" by simp
    from Suc.prems[OF this] show "has_intelligent_collisions self
            (map (\<lambda>offset. f_add (the_platform self) off offset)
               (calculate_y_grid self count ((?step ^^ j) (?step sp)))) hs used cur"
      unfolding shift .
  qed
  have unfold: "find_y_grid self (Suc n) sp g count off hs used cur
                  = find_y_grid self n (?step sp) (calculate_y_grid self count sp) count off hs
                      used cur"
    using c0 by (simp add: Let_def)
  show ?case
  proof (cases n)
    case 0
    with ih show ?thesis unfolding unfold by simp
  next
    case (Suc m)
    with ih have "snd (find_y_grid self n (?step sp) (calculate_y_grid self count sp) count off hs
                         used cur)
                    = calculate_y_grid self count ((?step ^^ Suc m) sp)"
      by (simp only: shift diff_Suc_1 nat.simps if_False)
    with Suc show ?thesis unfolding unfold by (simp only: diff_Suc_1 nat.simps if_False)
  qed
qed

text \<open>The grid has one offset per node as soon as \<open>np.linspace\<close> returns as many points as
  it is asked for.\<close>

lemma length_calculate_y_grid:
  "(\<And>a b. length (np_linspace (the_platform self) a b count) = count)
     \<Longrightarrow> length (calculate_y_grid self count y_spacing) = count"
  by (simp add: calculate_y_grid_def Let_def)

lemma length_find_y_grid:
  assumes "\<And>a b. length (np_linspace (the_platform self) a b count) = count"
  shows "0 < n \<Longrightarrow> length (snd (find_y_grid self n sp g count off hs used cur)) = count"
proof (induction n arbitrary: sp g)
  case 0
  then show ?case by simp
next
  case (Suc n)
  show ?case
  proof (cases n)
    case 0
    then show ?thesis by (simp add: Let_def length_calculate_y_grid[OF assms])
  next
    case (Suc m)
    with Suc.IH show ?thesis
      by (simp add: Let_def length_calculate_y_grid[OF assms])
  qed
qed

text \<open>What committing a batch records: the position of every row, and the height of
  every row under its key \<open>(x_group, y)\<close>.\<close>

lemma commit_batch_positions_other:
  "i \<notin> (\<lambda>z. DOMAIN_ID (snd (snd z))) ` set zs \<Longrightarrow>
     map_of (p_positions (commit_batch self zs xg off st)) i = map_of (p_positions st) i"
proof (induction zs arbitrary: st)
  case Nil
  then show ?case by simp
next
  case (Cons z zs)
  obtain offset ht row where z: "z = (offset, ht, row)" by (cases z) auto
  from Cons.prems z have "i \<noteq> DOMAIN_ID row"
    and "i \<notin> (\<lambda>z. DOMAIN_ID (snd (snd z))) ` set zs" by auto
  with Cons.IH show ?case unfolding z by (simp add: Let_def update_conv')
qed

lemma commit_batch_positions:
  "distinct (map (\<lambda>z. DOMAIN_ID (snd (snd z))) zs) \<Longrightarrow> (offset, ht, row) \<in> set zs \<Longrightarrow>
     map_of (p_positions (commit_batch self zs xg off st)) (DOMAIN_ID row)
       = Some (f_mul (the_platform self) (real_of_int xg) (x_spacing self),
               f_add (the_platform self) off offset)"
proof (induction zs arbitrary: st)
  case Nil
  then show ?case by simp
next
  case (Cons z zs)
  obtain o1 h1 r1 where z: "z = (o1, h1, r1)" by (cases z) auto
  show ?case
  proof (cases "(offset, ht, row) = z")
    case True
    with Cons.prems(1) z have "DOMAIN_ID row \<notin> (\<lambda>z. DOMAIN_ID (snd (snd z))) ` set zs"
      by auto
    from commit_batch_positions_other[OF this] True z show ?thesis
      by (simp add: Let_def update_conv')
  next
    case False
    with Cons.prems have "(offset, ht, row) \<in> set zs"
      and "distinct (map (\<lambda>z. DOMAIN_ID (snd (snd z))) zs)" by auto
    with Cons.IH show ?thesis unfolding z by (simp add: Let_def)
  qed
qed

lemma commit_batch_used_other:
  "k \<notin> (\<lambda>z. (xg, f_add (the_platform self) off (fst z))) ` set zs \<Longrightarrow>
     map_of (p_used_y_coords (commit_batch self zs xg off st)) k
       = map_of (p_used_y_coords st) k"
proof (induction zs arbitrary: st)
  case Nil
  then show ?case by simp
next
  case (Cons z zs)
  obtain offset ht row where z: "z = (offset, ht, row)" by (cases z) auto
  from Cons.prems z have "k \<noteq> (xg, f_add (the_platform self) off offset)"
    and "k \<notin> (\<lambda>z. (xg, f_add (the_platform self) off (fst z))) ` set zs"
    by auto
  with Cons.IH show ?case unfolding z by (simp add: Let_def update_conv')
qed

lemma commit_batch_used:
  "distinct (map (\<lambda>z. f_add (the_platform self) off (fst z)) zs) \<Longrightarrow>
   (offset, ht, row) \<in> set zs \<Longrightarrow>
     map_of (p_used_y_coords (commit_batch self zs xg off st))
       (xg, f_add (the_platform self) off offset) = Some ht"
proof (induction zs arbitrary: st)
  case Nil
  then show ?case by simp
next
  case (Cons z zs)
  obtain o1 h1 r1 where z: "z = (o1, h1, r1)" by (cases z) auto
  show ?case
  proof (cases "(offset, ht, row) = z")
    case True
    with Cons.prems(1) z
    have "(xg, f_add (the_platform self) off offset)
            \<notin> (\<lambda>z. (xg, f_add (the_platform self) off (fst z))) ` set zs"
      by auto
    from commit_batch_used_other[OF this] True z show ?thesis
      by (simp add: Let_def update_conv')
  next
    case False
    with Cons.prems have "(offset, ht, row) \<in> set zs"
      and "distinct (map (\<lambda>z. f_add (the_platform self) off (fst z)) zs)"
      by auto
    with Cons.IH show ?thesis unfolding z by (simp add: Let_def)
  qed
qed

lemma commit_batch_used_dom:
  "dom (map_of (p_used_y_coords (commit_batch self zs xg off st)))
     = dom (map_of (p_used_y_coords st))
         \<union> (\<lambda>z. (xg, f_add (the_platform self) off (fst z))) ` set zs"
proof (induction zs arbitrary: st)
  case Nil
  then show ?case by simp
next
  case (Cons z zs)
  obtain offset ht row where z: "z = (offset, ht, row)" by (cases z) auto
  show ?case unfolding z by (auto simp: Cons.IH Let_def update_conv' split: if_splits)
qed

lemma group_heights_of_length:
  "group_heights_of dims rows = Inr hs \<Longrightarrow> length hs = length rows"
proof (induction rows arbitrary: hs)
  case Nil
  then show ?case by simp
next
  case (Cons row rows)
  then show ?case by (auto simp: py_bind_Inr_iff split: prod.splits)
qed

lemma zip3_nth:
  assumes "i < length grid" and "i < length rows" and "length hs = length rows"
  shows "(grid ! i, hs ! i, rows ! i) \<in> set (zip grid (zip hs rows))"
proof -
  from assms have "i < length (zip grid (zip hs rows))" by simp
  then have "zip grid (zip hs rows) ! i \<in> set (zip grid (zip hs rows))" by (rule nth_mem)
  with assms show ?thesis by simp
qed

lemma zip3_ids_distinct:
  assumes "distinct (map DOMAIN_ID rows)" and "length hs = length rows"
  shows "distinct (map (\<lambda>z. DOMAIN_ID (snd (snd z))) (zip grid (zip hs rows)))"
proof -
  have "map (\<lambda>z. DOMAIN_ID (snd (snd z))) (zip grid (zip hs rows))
          = map DOMAIN_ID (map snd (map snd (zip grid (zip hs rows))))"
    by simp
  also have "\<dots> = map DOMAIN_ID (take (length grid) rows)"
    using assms(2) by (simp add: map_snd_zip_take take_map[symmetric] min_def take_all)
  finally show ?thesis using distinct_take[OF assms(1), of "length grid"]
    by (simp add: take_map)
qed

text \<open>
  Claim C9, as stated: the predicate reports a collision also when two members of the new
  batch overlap each other. Three domains with five-line labels (height 0.78) in one
  bucket are placed 0.7 apart, so neighbours overlap; nothing is committed yet, and
  \<open>_has_intelligent_collisions\<close>, which has no committed node to compare with, reports no
  collision (evaluated on the exact platform; the extents overlap by 0.08, far from the
  boundary).
\<close>

theorem batch_members_unchecked_counterexample:
  "assign_stacked_positions ex_builder_tall
       = Inr [(''D1'', 34 / 10, - (7 / 10)), (''D2'', 34 / 10, 0), (''D3'', 34 / 10, 7 / 10)]
     \<and> calculate_y_grid ex_builder_tall 3 (local_y_spacing ex_builder_tall)
         = [- (7 / 10), 0, 7 / 10]
     \<and> spec_has_collisions ex_builder_tall [- (7 / 10), 0, 7 / 10]
         [78 / 100, 78 / 100, 78 / 100] [] 1
     \<and> \<not> has_intelligent_collisions ex_builder_tall [- (7 / 10), 0, 7 / 10]
           [78 / 100, 78 / 100, 78 / 100] [] 1"
  by code_simp

text \<open>
  Claim C9, amended: the predicate reports a collision exactly when some node of the new
  batch has a vertical extent overlapping, within the 0.15 gap, the extent of an already
  committed node of the same X-group (the other members of the batch are not compared).
  The attempt number \<open>k\<close> uses the spacing 0.7 multiplied \<open>k\<close> times by 1.08; the loop keeps
  the grid of the first of its 15 attempts that does not collide, and the grid of the
  fifteenth when all collide. In both cases the batch is committed: every row paired with
  an offset of the grid gets the position \<open>(x_group * 3.4, tier_offset + offset)\<close>, and
  its key \<open>(x_group, y)\<close> enters the committed coordinates. All of it holds for every
  rounding of the float operations.
\<close>

theorem collision_check_and_retry:
  "(has_intelligent_collisions self ys hs used cur
      \<longleftrightarrow> (\<exists>(y, h) \<in> set (zip ys hs). \<exists>((g, ey), eh) \<in> set used.
             g = cur \<and> extents_overlap self y h ey eh))
   \<and> (k < 15 \<and> (\<forall>j<k. attempt_collides self count off hs used cur j)
         \<and> \<not> attempt_collides self count off hs used cur k
       \<longrightarrow> snd (find_y_grid self 15 (local_y_spacing self) [] count off hs used cur)
           = attempt_grid self count k)
   \<and> ((\<forall>j<15. attempt_collides self count off hs used cur j)
       \<longrightarrow> snd (find_y_grid self 15 (local_y_spacing self) [] count off hs used cur)
           = attempt_grid self count 14)
   \<and> ((\<forall>a b. length (np_linspace (the_platform self) a b count) = count)
       \<longrightarrow> length (snd (find_y_grid self 15 (local_y_spacing self) [] count off hs used cur))
           = count)
   \<and> (group_heights_of (node_dimensions self) (sort_values (the_platform self) grp) = Inr hs
         \<and> distinct (map DOMAIN_ID (sort_values (the_platform self) grp))
         \<and> i < length (sort_values (the_platform self) grp)
         \<and> i < length (snd (find_y_grid self 15 (local_y_spacing self) []
                              (length (sort_values (the_platform self) grp)) off hs
                              (p_used_y_coords st) cur))
       \<longrightarrow> (\<exists>st'. place_group self off cur grp st = Inr st'
             \<and> map_of (p_positions st') (DOMAIN_ID (sort_values (the_platform self) grp ! i))
                 = Some (f_mul (the_platform self) (real_of_int cur) (x_spacing self),
                         f_add (the_platform self) off
                           (snd (find_y_grid self 15 (local_y_spacing self) []
                                   (length (sort_values (the_platform self) grp)) off hs
                                   (p_used_y_coords st) cur) ! i))
             \<and> (cur, f_add (the_platform self) off
                        (snd (find_y_grid self 15 (local_y_spacing self) []
                                (length (sort_values (the_platform self) grp)) off hs
                                (p_used_y_coords st) cur) ! i))
                 \<in> dom (map_of (p_used_y_coords st'))))"
proof (intro conjI impI)
  show "has_intelligent_collisions self ys hs used cur
      \<longleftrightarrow> (\<exists>(y, h) \<in> set (zip ys hs). \<exists>((g, ey), eh) \<in> set used.
             g = cur \<and> extents_overlap self y h ey eh)"
    by (rule has_intelligent_collisions_iff)
next
  assume a: "k < 15 \<and> (\<forall>j<k. attempt_collides self count off hs used cur j)
         \<and> \<not> attempt_collides self count off hs used cur k"
  show "snd (find_y_grid self 15 (local_y_spacing self) [] count off hs used cur)
          = attempt_grid self count k"
    unfolding attempt_grid_def attempt_spacing_def
  proof (rule find_y_grid_first)
    from a show "k < 15" by simp
  next
    fix j assume "j < k"
    with a show "has_intelligent_collisions self
            (map (\<lambda>offset. f_add (the_platform self) off offset)
               (calculate_y_grid self count
                  (((\<lambda>s. f_mul (the_platform self) s (f_lit (the_platform self) (108 / 100))) ^^ j)
                     (local_y_spacing self))))
            hs used cur"
      by (simp add: attempt_collides_def attempt_grid_def attempt_spacing_def)
  next
    from a show "\<not> has_intelligent_collisions self
            (map (\<lambda>offset. f_add (the_platform self) off offset)
               (calculate_y_grid self count
                  (((\<lambda>s. f_mul (the_platform self) s (f_lit (the_platform self) (108 / 100))) ^^ k)
                     (local_y_spacing self))))
            hs used cur"
      by (simp add: attempt_collides_def attempt_grid_def attempt_spacing_def)
  qed
next
  assume a: "\<forall>j<15. attempt_collides self count off hs used cur j"
  have "snd (find_y_grid self 15 (local_y_spacing self) [] count off hs used cur)
          = (if (15::nat) = 0 then []
             else calculate_y_grid self count
                    (((\<lambda>s. f_mul (the_platform self) s (f_lit (the_platform self) (108 / 100)))
                        ^^ (15 - 1)) (local_y_spacing self)))"
  proof (rule find_y_grid_exhausted)
    fix j :: nat assume "j < 15"
    with a show "has_intelligent_collisions self
            (map (\<lambda>offset. f_add (the_platform self) off offset)
               (calculate_y_grid self count
                  (((\<lambda>s. f_mul (the_platform self) s (f_lit (the_platform self) (108 / 100))) ^^ j)
                     (local_y_spacing self))))
            hs used cur"
      by (simp add: attempt_collides_def attempt_grid_def attempt_spacing_def)
  qed
  then show "snd (find_y_grid self 15 (local_y_spacing self) [] count off hs used cur)
               = attempt_grid self count 14"
    by (simp add: attempt_grid_def attempt_spacing_def)
next
  assume "\<forall>a b. length (np_linspace (the_platform self) a b count) = count"
  then show "length (snd (find_y_grid self 15 (local_y_spacing self) [] count off hs used cur))
               = count"
    by (intro length_find_y_grid) simp_all
next
  let ?sorted = "sort_values (the_platform self) grp"
  let ?grid = "snd (find_y_grid self 15 (local_y_spacing self) [] (length ?sorted) off hs
                      (p_used_y_coords st) cur)"
  let ?zs = "zip ?grid (zip hs ?sorted)"
  assume a: "group_heights_of (node_dimensions self) ?sorted = Inr hs
         \<and> distinct (map DOMAIN_ID ?sorted) \<and> i < length ?sorted \<and> i < length ?grid"
  then have len: "length hs = length ?sorted" using group_heights_of_length by blast
  from a have pg: "place_group self off cur grp st = Inr (commit_batch self ?zs cur off st)"
    by (simp add: place_group_def Let_def py_bind_Inr split_beta)
  from a len have mem: "(?grid ! i, hs ! i, ?sorted ! i) \<in> set ?zs"
    by (intro zip3_nth) simp_all
  from a len have dist: "distinct (map (\<lambda>z. DOMAIN_ID (snd (snd z))) ?zs)"
    by (intro zip3_ids_distinct) simp_all
  have p: "map_of (p_positions (commit_batch self ?zs cur off st)) (DOMAIN_ID (?sorted ! i))
             = Some (f_mul (the_platform self) (real_of_int cur) (x_spacing self),
                     f_add (the_platform self) off (?grid ! i))"
    by (rule commit_batch_positions[OF dist mem])
  have "(cur, f_add (the_platform self) off (fst (?grid ! i, hs ! i, ?sorted ! i)))
          \<in> (\<lambda>z. (cur, f_add (the_platform self) off (fst z))) ` set ?zs"
    using mem by (rule imageI)
  then have u: "(cur, f_add (the_platform self) off (?grid ! i))
          \<in> dom (map_of (p_used_y_coords (commit_batch self ?zs cur off st)))"
    unfolding commit_batch_used_dom by simp
  from pg p u show "\<exists>st'. place_group self off cur grp st = Inr st'
             \<and> map_of (p_positions st') (DOMAIN_ID (?sorted ! i))
                 = Some (f_mul (the_platform self) (real_of_int cur) (x_spacing self),
                         f_add (the_platform self) off (?grid ! i))
             \<and> (cur, f_add (the_platform self) off (?grid ! i))
                 \<in> dom (map_of (p_used_y_coords st'))"
    by blast
qed

theorem collision_check_and_retry_witness:
  "list_all (attempt_collides ex_builder 2 0 [3 / 10, 3 / 10] [((1, 0), 3 / 10)] 1) [0..<4]
     \<and> \<not> attempt_collides ex_builder 2 0 [3 / 10, 3 / 10] [((1, 0), 3 / 10)] 1 4
     \<and> snd (find_y_grid ex_builder 15 (local_y_spacing ex_builder) [] 2 0 [3 / 10, 3 / 10]
              [((1, 0), 3 / 10)] 1)
         = attempt_grid ex_builder 2 4
     \<and> group_heights_of (node_dimensions ex_builder_tall)
           (sort_values (the_platform ex_builder_tall) ex_nodes_tall)
         = Inr [78 / 100, 78 / 100, 78 / 100]
     \<and> distinct (map DOMAIN_ID (sort_values (the_platform ex_builder_tall) ex_nodes_tall))
     \<and> place_group ex_builder_tall 0 1 ex_nodes_tall \<lparr>p_positions = [], p_used_y_coords = []\<rparr>
         = Inr \<lparr>p_positions = [(''D1'', 34 / 10, - (7 / 10)), (''D2'', 34 / 10, 0),
                                (''D3'', 34 / 10, 7 / 10)],
                 p_used_y_coords = [((1, - (7 / 10)), 78 / 100), ((1, 0), 78 / 100),
                                    ((1, 7 / 10), 78 / 100)]\<rparr>"
proof -
  have c: "list_all (attempt_collides ex_builder 2 0 [3 / 10, 3 / 10] [((1, 0), 3 / 10)] 1)
             [0..<4]"
    by code_simp
  have n: "\<not> attempt_collides ex_builder 2 0 [3 / 10, 3 / 10] [((1, 0), 3 / 10)] 1 4"
    by code_simp
  from c have c': "\<forall>j<4. attempt_collides ex_builder 2 0 [3 / 10, 3 / 10] [((1, 0), 3 / 10)] 1 j"
    by (simp add: list_all_iff)
  have k: "(4::nat) < 15" by simp
  have r: "snd (find_y_grid ex_builder 15 (local_y_spacing ex_builder) [] 2 0 [3 / 10, 3 / 10]
                  [((1, 0), 3 / 10)] 1)
             = attempt_grid ex_builder 2 4"
    by (rule collision_check_and_retry[THEN conjunct2, THEN conjunct1, THEN mp,
          OF conjI[OF k conjI[OF c' n]]])
  have h: "group_heights_of (node_dimensions ex_builder_tall)
             (sort_values (the_platform ex_builder_tall) ex_nodes_tall)
           = Inr [78 / 100, 78 / 100, 78 / 100]"
    by code_simp
  have d: "distinct (map DOMAIN_ID (sort_values (the_platform ex_builder_tall) ex_nodes_tall))"
    by code_simp
  have p: "place_group ex_builder_tall 0 1 ex_nodes_tall \<lparr>p_positions = [], p_used_y_coords = []\<rparr>
         = Inr \<lparr>p_positions = [(''D1'', 34 / 10, - (7 / 10)), (''D2'', 34 / 10, 0),
                                (''D3'', 34 / 10, 7 / 10)],
                 p_used_y_coords = [((1, - (7 / 10)), 78 / 100), ((1, 0), 78 / 100),
                                    ((1, 7 / 10), 78 / 100)]\<rparr>"
    by code_simp
  from c n r h d p show ?thesis by (intro conjI)
qed

subsection \<open>Positions do not depend on the clock or on the interaction\<close>

lemma marker_loop_coords:
  "marker_loop G ps ns = Inr m \<Longrightarrow>
     mk_customdata m = ns \<and> length (mk_x m) = length ns \<and> length (mk_y m) = length ns
     \<and> map Some (zip (mk_x m) (mk_y m)) = map (map_of ps) ns"
proof (induction ns arbitrary: m)
  case Nil
  then show ?case by auto
next
  case (Cons n ns)
  from Cons.prems obtain x y m' where
    l: "py_lookup ps n = Inr (x, y)"
    and r: "marker_loop G ps ns = Inr m'"
    and m: "mk_customdata m = n # mk_customdata m'" "mk_x m = x # mk_x m'"
      "mk_y m = y # mk_y m'"
    by (auto simp: py_bind_Inr_iff split: prod.splits)
  from l have "map_of ps n = Some (x, y)"
    by (simp add: py_lookup_def split: option.splits)
  with Cons.IH[OF r] m show ?case by simp
qed

lemma node_shapes_loop_coords:
  "node_shapes_loop G ps vis ns = Inr (shapes, anns) \<Longrightarrow>
     map (\<lambda>a. Some (an_x a, an_y a)) anns = map (map_of ps) ns"
proof (induction ns arbitrary: shapes anns)
  case Nil
  then show ?case by simp
next
  case (Cons n ns)
  from Cons.prems obtain x y s a shapes' anns' where
    l: "py_lookup ps n = Inr (x, y)"
    and r: "node_shapes_loop G ps vis ns = Inr (shapes', anns')"
    and e: "anns = a # anns'" "an_x a = x" "an_y a = y"
    by (auto simp: py_bind_Inr_iff Let_def split: prod.splits)
  from l have "map_of ps n = Some (x, y)"
    by (simp add: py_lookup_def split: option.splits)
  with Cons.IH[OF r] e show ?case by simp
qed

lemma alist_update_set: "set (AList.update k v al) \<subseteq> insert (k, v) (set al)"
  by (induction al) auto

text \<open>Every node of the graph that has a position attribute carries the position that
  was assigned to its identifier.\<close>

lemma add_node_rows_pos:
  "add_node_rows self positions rows G = Inr G' \<Longrightarrow>
   (\<And>n a. (n, Some a) \<in> set (g_nodes G) \<Longrightarrow> map_of positions n = Some (pos a)) \<Longrightarrow>
   (n, Some a) \<in> set (g_nodes G') \<Longrightarrow> map_of positions n = Some (pos a)"
proof (induction rows arbitrary: G)
  case Nil
  then show ?case by simp
next
  case (Cons row rows)
  from Cons.prems(1) obtain w h wrapped p where
    d: "py_lookup (node_dimensions self) (DOMAIN_ID row) = Inr (w, h, wrapped)"
    and l: "py_lookup positions (DOMAIN_ID row) = Inr p"
    and r: "add_node_rows self positions rows
              (add_node (DOMAIN_ID row)
                 \<lparr>label = DOMAIN_NAME row, wrapped_label = wrapped, category = CATEGORY row,
                  color = COLOR_HEX row, border = BORDER_HEX row,
                  original_border = BORDER_HEX row, pos = p, width = w, height = h,
                  glow = None, opacity = None\<rparr> G) = Inr G'"
    by (auto simp: py_bind_Inr_iff split: prod.splits)
  from l have lp: "map_of positions (DOMAIN_ID row) = Some p"
    by (simp add: py_lookup_def split: option.splits)
  show ?case
  proof (rule Cons.IH[OF r _ Cons.prems(3)])
    fix m b
    assume "(m, Some b) \<in> set (g_nodes (add_node (DOMAIN_ID row)
                 \<lparr>label = DOMAIN_NAME row, wrapped_label = wrapped, category = CATEGORY row,
                  color = COLOR_HEX row, border = BORDER_HEX row,
                  original_border = BORDER_HEX row, pos = p, width = w, height = h,
                  glow = None, opacity = None\<rparr> G))"
    then have "(m, Some b) \<in> insert (DOMAIN_ID row, Some
                 \<lparr>label = DOMAIN_NAME row, wrapped_label = wrapped, category = CATEGORY row,
                  color = COLOR_HEX row, border = BORDER_HEX row,
                  original_border = BORDER_HEX row, pos = p, width = w, height = h,
                  glow = None, opacity = None\<rparr>) (set (g_nodes G))"
      using alist_update_set[of "DOMAIN_ID row" _ "g_nodes G"] by (auto simp: add_node_def)
    with lp Cons.prems(2) show "map_of positions m = Some (pos b)" by auto
  qed
qed

lemma add_edge_rows_attrs:
  "(n, Some a) \<in> set (g_nodes (add_edge_rows rows G)) \<Longrightarrow> (n, Some a) \<in> set (g_nodes G)"
proof (induction rows arbitrary: G)
  case Nil
  then show ?case by simp
next
  case (Cons row rows)
  from Cons.IH[OF Cons.prems[simplified]] show ?case
    by (auto simp: add_edge_def touch_node_def Let_def split: if_splits)
qed

lemma get_pos_assigned:
  assumes "build_networkx_graph self positions = Inr G" and "(n, p) \<in> set (get_pos G)"
  shows "map_of positions n = Some p"
proof -
  from assms(1) obtain G0 where
    g0: "add_node_rows self positions (nodes_df self) \<lparr>g_nodes = [], g_edges = []\<rparr> = Inr G0"
    and g: "G = add_edge_rows (edges_df self) G0"
    by (auto simp: build_networkx_graph_def py_bind_Inr_iff)
  from assms(2) obtain a where a: "(n, Some a) \<in> set (g_nodes G)" and p: "p = pos a"
    by (auto simp: get_pos_def split: option.splits)
  from a g have "(n, Some a) \<in> set (g_nodes G0)" by (simp add: add_edge_rows_attrs)
  with add_node_rows_pos[OF g0] p show ?thesis by simp
qed

text \<open>
  Claim C6: position assignment is deterministic. Two builds over the same tables (on the
  same platform) put every node at the same coordinates, whatever the selection, the
  hovered node, the mode, the directions and the reading of the clock of either build;
  and the coordinates of a node are those that \<open>_assign_stacked_positions\<close>, which reads
  the builder only, assigns to its identifier.
\<close>

theorem positions_deterministic:
  "build_figure self selected directions mode hovered now = Inr fig \<Longrightarrow>
   build_figure self selected' directions' mode' hovered' now' = Inr fig' \<Longrightarrow>
     mk_customdata (fig_interactive_trace fig) = mk_customdata (fig_interactive_trace fig')
     \<and> mk_x (fig_interactive_trace fig) = mk_x (fig_interactive_trace fig')
     \<and> mk_y (fig_interactive_trace fig) = mk_y (fig_interactive_trace fig')
     \<and> map (\<lambda>a. (an_x a, an_y a)) (fig_node_annotations fig)
         = map (\<lambda>a. (an_x a, an_y a)) (fig_node_annotations fig')
     \<and> (\<exists>positions. assign_stacked_positions self = Inr positions
           \<and> (\<forall>(n, xy) \<in> set (zip (mk_customdata (fig_interactive_trace fig))
                                 (zip (mk_x (fig_interactive_trace fig))
                                    (mk_y (fig_interactive_trace fig)))).
                 map_of positions n = Some xy))"
proof -
  assume f: "build_figure self selected directions mode hovered now = Inr fig"
    and f': "build_figure self selected' directions' mode' hovered' now' = Inr fig'"
  from build_figure_Inr[OF f] obtain positions G0 G1 ts shapes anns marker where
    p: "assign_stacked_positions self = Inr positions"
    and g0: "build_networkx_graph self positions = Inr G0"
    and g1: "apply_node_styles G0 selected hovered
       (fst (determine_interaction_state G0 selected hovered mode))
       (snd (snd (determine_interaction_state G0 selected hovered mode))) = Inr G1"
    and sh: "create_node_shapes_and_annotations G1 (get_pos G0)
         (fst (determine_visible_elements G1 selected hovered directions mode))
        = Inr (shapes, anns)"
    and mk: "create_interactive_node_trace self G1 (get_pos G0) = Inr marker"
    and fig: "fig = \<lparr>fig_edge_traces = ts, fig_interactive_trace = marker,
            fig_node_shapes = shapes, fig_node_annotations = anns,
            fig_datarevision = py_int_of_float (now * 1000)\<rparr>"
    by (elim exE conjE) (rule that; assumption)
  from build_figure_Inr[OF f'] obtain positions' G0' G1' ts' shapes' anns' marker' where
    p': "assign_stacked_positions self = Inr positions'"
    and g0': "build_networkx_graph self positions' = Inr G0'"
    and g1': "apply_node_styles G0' selected' hovered'
       (fst (determine_interaction_state G0' selected' hovered' mode'))
       (snd (snd (determine_interaction_state G0' selected' hovered' mode'))) = Inr G1'"
    and sh': "create_node_shapes_and_annotations G1' (get_pos G0')
         (fst (determine_visible_elements G1' selected' hovered' directions' mode'))
        = Inr (shapes', anns')"
    and mk': "create_interactive_node_trace self G1' (get_pos G0') = Inr marker'"
    and fig': "fig' = \<lparr>fig_edge_traces = ts', fig_interactive_trace = marker',
            fig_node_shapes = shapes', fig_node_annotations = anns',
            fig_datarevision = py_int_of_float (now' * 1000)\<rparr>"
    by (elim exE conjE) (rule that; assumption)
  from p p' g0 g0' have same: "G0' = G0" by simp
  have ids: "node_ids G1 = node_ids G0" "node_ids G1' = node_ids G0"
    using apply_node_styles_structure[OF g1] apply_node_styles_structure[OF g1'] same
    by simp_all
  from mk obtain m where m: "marker_loop G1 (get_pos G0) (node_ids G1) = Inr m"
    and mm: "mk_customdata marker = mk_customdata m" "mk_x marker = mk_x m"
      "mk_y marker = mk_y m"
    by (auto simp: create_interactive_node_trace_def py_bind_Inr_iff)
  from mk' same obtain m' where m': "marker_loop G1' (get_pos G0) (node_ids G1') = Inr m'"
    and mm': "mk_customdata marker' = mk_customdata m'" "mk_x marker' = mk_x m'"
      "mk_y marker' = mk_y m'"
    by (auto simp: create_interactive_node_trace_def py_bind_Inr_iff)
  note c = marker_loop_coords[OF m, unfolded ids] and c' = marker_loop_coords[OF m', unfolded ids]
  from c c' have "map Some (zip (mk_x m) (mk_y m)) = map Some (zip (mk_x m') (mk_y m'))"
    by simp
  then have z: "zip (mk_x m) (mk_y m) = zip (mk_x m') (mk_y m')"
    by (simp add: inj_map_eq_map)
  from c c' have lens: "length (mk_x m) = length (mk_y m)" "length (mk_x m') = length (mk_y m')"
    by simp_all
  have x: "mk_x m = mk_x m'"
    using arg_cong[OF z, of "map fst"] lens by simp
  have y: "mk_y m = mk_y m'"
    using arg_cong[OF z, of "map snd"] lens by simp
  from sh have "map (\<lambda>a. Some (an_x a, an_y a)) anns = map (map_of (get_pos G0)) (node_ids G0)"
    unfolding create_node_shapes_and_annotations_def ids
    by (rule node_shapes_loop_coords)
  moreover from sh' same
  have "map (\<lambda>a. Some (an_x a, an_y a)) anns' = map (map_of (get_pos G0)) (node_ids G0)"
    unfolding create_node_shapes_and_annotations_def ids
    by (simp add: node_shapes_loop_coords)
  ultimately have "map (Some \<circ> (\<lambda>a. (an_x a, an_y a))) anns
                     = map (Some \<circ> (\<lambda>a. (an_x a, an_y a))) anns'"
    by (simp add: comp_def)
  then have "map Some (map (\<lambda>a. (an_x a, an_y a)) anns)
               = map Some (map (\<lambda>a. (an_x a, an_y a)) anns')"
    by simp
  then have an: "map (\<lambda>a. (an_x a, an_y a)) anns = map (\<lambda>a. (an_x a, an_y a)) anns'"
    by (simp only: inj_map_eq_map[OF inj_Some])
  have assigned: "\<forall>(n, xy) \<in> set (zip (mk_customdata m) (zip (mk_x m) (mk_y m))).
                    map_of positions n = Some xy"
  proof (clarify)
    fix n a b
    assume "(n, (a, b)) \<in> set (zip (mk_customdata m) (zip (mk_x m) (mk_y m)))"
    then obtain i where i: "i < length (node_ids G0)" "n = node_ids G0 ! i"
      "(a, b) = zip (mk_x m) (mk_y m) ! i"
      using c by (auto simp: in_set_conv_nth)
    from c i have li: "i < length (zip (mk_x m) (mk_y m))" by simp
    from c have "map Some (zip (mk_x m) (mk_y m)) ! i
                   = map (map_of (get_pos G0)) (node_ids G0) ! i"
      by simp
    then have "Some (zip (mk_x m) (mk_y m) ! i) = map_of (get_pos G0) (node_ids G0 ! i)"
      using li i(1) by (simp only: nth_map)
    with i have "map_of (get_pos G0) n = Some (a, b)" by simp
    then have "(n, (a, b)) \<in> set (get_pos G0)" by (rule map_of_SomeD)
    with g0 show "map_of positions n = Some (a, b)" by (rule get_pos_assigned)
  qed
  from c c' x y an mm mm' fig fig' p assigned show ?thesis by auto
qed

theorem positions_deterministic_witness:
  "\<not> isl (build_figure ex_builder None [] ''filter'' (Some ''RESET'') (17 / 10))
     \<and> mk_customdata
         (fig_interactive_trace
            (projr (build_figure ex_builder None [] ''filter'' (Some ''RESET'') (17 / 10))))
         = [''A'', ''B'', ''C'']
     \<and> mk_x (fig_interactive_trace
               (projr (build_figure ex_builder None [] ''filter'' (Some ''RESET'') (17 / 10))))
         = [34 / 10, 68 / 10, 34 / 10]
     \<and> mk_y (fig_interactive_trace
               (projr (build_figure ex_builder None [] ''filter'' (Some ''RESET'') (17 / 10))))
         = [0, 0, 36 / 10]"
proof -
  let ?run = "build_figure ex_builder None [] ''filter'' (Some ''RESET'') (17 / 10)"
  have i: "\<not> isl ?run" by code_simp
  then have f: "?run = Inr (projr ?run)" by simp
  note t = positions_deterministic[OF ex_figure_interactive f]
  from t have "mk_customdata (fig_interactive_trace (projr ?run)) = [''A'', ''B'', ''C'']"
    and "mk_x (fig_interactive_trace (projr ?run)) = [34 / 10, 68 / 10, 34 / 10]"
    and "mk_y (fig_interactive_trace (projr ?run)) = [0, 0, 36 / 10]"
    by simp_all
  with i show ?thesis by (intro conjI)
qed

end
